theory Spec2Isabelle
  imports Main
begin

section \<open>JavaScript values used by the access resolver\<close>

text \<open>
  The resolver of \<^verbatim>\<open>src/middleware/auth.ts\<close> works on strings that may be missing
  (\<^verbatim>\<open>undefined\<close> for a header, \<^verbatim>\<open>null\<close> for a nullable column). Both are \<open>None\<close>
  here. JavaScript treats a missing value and the empty string as falsy, and
  \<^verbatim>\<open>a || b\<close> yields \<open>a\<close> when it is truthy and \<open>b\<close> otherwise.
\<close>

definition truthy :: "string option \<Rightarrow> bool" where
  "truthy v = (case v of None \<Rightarrow> False | Some s \<Rightarrow> s \<noteq> [])"

definition js_or :: "string option \<Rightarrow> string option \<Rightarrow> string option" where
  "js_or a b = (if truthy a then a else b)"

text \<open>\<^verbatim>\<open>xs[0]\<close>: the first element, \<^verbatim>\<open>undefined\<close> on an empty array.\<close>

fun first :: "string list \<Rightarrow> string option" where
  "first [] = None"
| "first (x # xs) = Some x"

text \<open>\<^verbatim>\<open>String.prototype.startsWith\<close>, \<^verbatim>\<open>includes\<close> and \<^verbatim>\<open>replace\<close> with a string pattern
  (only the first occurrence is replaced).\<close>

fun startsWith :: "string \<Rightarrow> string \<Rightarrow> bool" where
  "startsWith s [] = True"
| "startsWith [] (c # cs) = False"
| "startsWith (x # xs) (c # cs) = (x = c \<and> startsWith xs cs)"

fun includes_str :: "string \<Rightarrow> string \<Rightarrow> bool" where
  "includes_str [] n = (n = [])"
| "includes_str (x # xs) n = (startsWith (x # xs) n \<or> includes_str xs n)"

fun replace_first :: "string \<Rightarrow> string \<Rightarrow> string \<Rightarrow> string" where
  "replace_first [] pat rep = (if pat = [] then rep else [])"
| "replace_first (x # xs) pat rep =
     (if startsWith (x # xs) pat then rep @ drop (length pat) (x # xs)
      else x # replace_first xs pat rep)"

text \<open>A thrown \<^verbatim>\<open>Error\<close>: its message and, for the errors of the token library and of the
  ORM, its code.\<close>

datatype js_error = JsError (err_message: string) (err_code: "string option")

section \<open>The credential store\<close>

text \<open>
  The tables of \<^verbatim>\<open>prisma/schema.prisma\<close> that the resolver reads and writes, with the
  columns it uses. Timestamps and the JSON \<^verbatim>\<open>permissions\<close> column are left out.
\<close>

record user_row =
  user_id :: string
  user_email :: string
  user_passwordHash :: string
  user_role :: string
  user_primaryOrganizationId :: "string option"
  user_active :: bool
  user_lastLogin :: "nat option"

record access_row =
  access_id :: string
  access_userId :: string
  access_organizationId :: string
  access_role :: string
  access_status :: string

record org_row =
  org_id :: string
  org_name :: string
  org_active :: bool

record db =
  users :: "user_row list"
  userOrganizationAccess :: "access_row list"
  organizations :: "org_row list"

text \<open>A membership row as the queries return it: joined with
  \<^verbatim>\<open>organization: { id, name, active }\<close>.\<close>

record org_view =
  ov_id :: string
  ov_name :: string
  ov_active :: bool

record access_view =
  av_id :: string
  av_userId :: string
  av_organizationId :: string
  av_role :: string
  av_status :: string
  av_organization :: "org_view option"

text \<open>The decoded token, as the middleware casts it.\<close>

record decoded =
  userId :: string
  email :: string
  role :: string

text \<open>
  What lies outside the repository is a parameter: the token library's \<^verbatim>\<open>verify\<close>, the
  password hash comparison, the id generator of the store, the configuration, the clock,
  and the failures of the store. A store call fails with the given error when its fault
  is set; \<open>fault_access_create\<close> is asked per organization id.
\<close>

record env =
  jwt_verify :: "string \<Rightarrow> js_error + decoded"
  bcrypt_compare :: "string \<Rightarrow> string \<Rightarrow> bool"
  cuid :: "nat \<Rightarrow> string"
  basePath :: string
  expiresIn :: string
  now :: nat
  fault_user_findUnique :: "js_error option"
  fault_organization_findMany :: "js_error option"
  fault_access_create :: "string \<Rightarrow> js_error option"
  fault_user_update :: "js_error option"

definition join_organization :: "db \<Rightarrow> access_row \<Rightarrow> access_view" where
  "join_organization d a =
     \<lparr> av_id = access_id a, av_userId = access_userId a,
       av_organizationId = access_organizationId a, av_role = access_role a,
       av_status = access_status a,
       av_organization =
         map_option (\<lambda>org. \<lparr> ov_id = org_id org, ov_name = org_name org, ov_active = org_active org \<rparr>)
           (find (\<lambda>org. org_id org = access_organizationId a) (organizations d)) \<rparr>"

text \<open>\<^verbatim>\<open>include: { organizationAccess: { where: { status: "active" }, include: { organization } } }\<close>\<close>

definition active_access :: "db \<Rightarrow> user_row \<Rightarrow> access_view list" where
  "active_access d u =
     map (join_organization d)
       (filter (\<lambda>a. access_userId a = user_id u \<and> access_status a = ''active'')
          (userOrganizationAccess d))"

text \<open>\<^verbatim>\<open>prisma.user.findUnique({ where: { id }, include: ... })\<close>\<close>

definition user_findUnique ::
  "env \<Rightarrow> db \<Rightarrow> string \<Rightarrow> js_error + (user_row \<times> access_view list) option" where
  "user_findUnique e d uid =
     (case fault_user_findUnique e of
        Some err \<Rightarrow> Inl err
      | None \<Rightarrow>
          Inr (case find (\<lambda>u. user_id u = uid) (users d) of
                 None \<Rightarrow> None
               | Some u \<Rightarrow> Some (u, active_access d u)))"

text \<open>\<^verbatim>\<open>prisma.organization.findMany({ where: { active: true }, select: { id, name } })\<close>\<close>

definition organization_findMany :: "env \<Rightarrow> db \<Rightarrow> js_error + org_row list" where
  "organization_findMany e d =
     (case fault_organization_findMany e of
        Some err \<Rightarrow> Inl err
      | None \<Rightarrow> Inr (filter org_active (organizations d)))"

text \<open>
  \<^verbatim>\<open>prisma.userOrganizationAccess.create\<close>. The table has
  \<^verbatim>\<open>@@unique([userId, organizationId])\<close>: an insert of a pair that is already there, in any
  status, is refused with the ORM's unique-constraint error.
\<close>

definition unique_violation :: js_error where
  "unique_violation =
     JsError ''Unique constraint failed on the fields: (userId,organizationId)'' (Some ''P2002'')"

definition has_access_row :: "db \<Rightarrow> string \<Rightarrow> string \<Rightarrow> bool" where
  "has_access_row d uid oid =
     list_ex (\<lambda>a. access_userId a = uid \<and> access_organizationId a = oid) (userOrganizationAccess d)"

definition userOrganizationAccess_create ::
  "env \<Rightarrow> db \<Rightarrow> string \<Rightarrow> string \<Rightarrow> string \<Rightarrow> string \<Rightarrow> js_error + db" where
  "userOrganizationAccess_create e d uid oid r st =
     (case fault_access_create e oid of
        Some err \<Rightarrow> Inl err
      | None \<Rightarrow>
          if has_access_row d uid oid then Inl unique_violation
          else Inr (d\<lparr> userOrganizationAccess := userOrganizationAccess d @
                 [\<lparr> access_id = cuid e (length (userOrganizationAccess d)), access_userId = uid,
                    access_organizationId = oid, access_role = r, access_status = st \<rparr>] \<rparr>))"

text \<open>\<^verbatim>\<open>prisma.user.update({ where: { id }, data: { primaryOrganizationId } })\<close>\<close>

definition user_update_primary :: "env \<Rightarrow> db \<Rightarrow> string \<Rightarrow> string \<Rightarrow> js_error + db" where
  "user_update_primary e d uid oid =
     (case fault_user_update e of
        Some err \<Rightarrow> Inl err
      | None \<Rightarrow>
          if list_ex (\<lambda>u. user_id u = uid) (users d)
          then Inr (d\<lparr> users := map (\<lambda>u. if user_id u = uid
                                          then u\<lparr> user_primaryOrganizationId := Some oid \<rparr> else u)
                                  (users d) \<rparr>)
          else Inl (JsError ''Record to update not found.'' (Some ''P2025'')))"

section \<open>The access resolver\<close>

text \<open>The request as the hook reads it.\<close>

record request =
  url :: string
  authorization :: "string option"
  x_organization_id :: "string option"

text \<open>\<^verbatim>\<open>interface User\<close> of \<^verbatim>\<open>types/auth.ts\<close>: the context attached to the request.\<close>

record user_context =
  ctx_id :: string
  ctx_email :: string
  ctx_role :: string
  organizationIds :: "string list"
  primaryOrganizationId :: "string option"
  currentOrganizationId :: "string option"
  organizationAccess :: "access_view list"

text \<open>The hook either returns without a reply (a public route), sends a reply
  (status, issue code, diagnostics), or attaches the context.\<close>

datatype outcome =
    Skipped
  | Reply nat string string
  | Attached user_context

text \<open>The lines written at level \<^verbatim>\<open>warn\<close> and \<^verbatim>\<open>error\<close>; the \<^verbatim>\<open>info\<close> lines are not
  modelled.\<close>

datatype log_event =
    Warn_MissingAuthorization string
  | Warn_InvalidAuthorizationFormat string
  | Error_JwtVerificationFailed string
  | Warn_UserNotFound string
  | Warn_UserInactive string
  | Warn_CreateAccessFailed string string
  | Error_GrantAccessFailed string
  | Warn_NoAccessToOrganization string string
  | Error_AuthMiddleware string

definition publicRoutes :: "env \<Rightarrow> string list" where
  "publicRoutes e =
     [''/health'', ''/metrics'', ''/test'', ''/debug'',
      basePath e @ ''/auth/login'', basePath e @ ''/auth/register'',
      ''/docs'', ''/docs/static'', ''/docs/json'', ''/docs/yaml'',
      ''/docs/uiConfig'', ''/docs/initOAuth'']"

definition isPublicRoute :: "env \<Rightarrow> request \<Rightarrow> bool" where
  "isPublicRoute e req =
     list_ex (\<lambda>route. startsWith (url req) route \<or> url req = route) (publicRoutes e)"

text \<open>The \<^verbatim>\<open>for (const org of allOrganizations)\<close> loop: one insert per organization; a
  failed insert is caught, logged unless its message contains \<^verbatim>\<open>Unique constraint\<close>, and
  the loop goes on.\<close>

fun create_access_all :: "env \<Rightarrow> string \<Rightarrow> org_row list \<Rightarrow> db \<times> log_event list \<Rightarrow> db \<times> log_event list" where
  "create_access_all e uid [] (d, lg) = (d, lg)"
| "create_access_all e uid (org # orgs) (d, lg) =
     (case userOrganizationAccess_create e d uid (org_id org) ''admin'' ''active'' of
        Inr d' \<Rightarrow> create_access_all e uid orgs (d', lg)
      | Inl err \<Rightarrow>
          if \<not> includes_str (err_message err) ''Unique constraint''
          then create_access_all e uid orgs (d, lg @ [Warn_CreateAccessFailed (org_id org) (err_message err)])
          else create_access_all e uid orgs (d, lg))"

definition temp_access :: "string \<Rightarrow> org_row \<Rightarrow> access_view" where
  "temp_access uid org =
     \<lparr> av_id = ''temp-'' @ org_id org, av_userId = uid, av_organizationId = org_id org,
       av_role = ''admin'', av_status = ''active'',
       av_organization = Some \<lparr> ov_id = org_id org, ov_name = org_name org, ov_active = True \<rparr> \<rparr>"

text \<open>
  Lines 171 to 244: the organization ids of the loaded memberships and, for a
  \<^verbatim>\<open>super_admin\<close> with none, the grant of access to all active organizations. The whole
  grant is inside a \<^verbatim>\<open>try\<close>: an error of the enumeration or of the update is logged, and
  the ids and memberships stay as they were loaded.
\<close>

definition self_heal ::
  "env \<Rightarrow> db \<Rightarrow> user_row \<Rightarrow> access_view list
     \<Rightarrow> db \<times> string list \<times> access_view list \<times> log_event list" where
  "self_heal e d user access =
     (let ids = map av_organizationId access in
      if ids = [] \<and> user_role user = ''super_admin'' then
        (case organization_findMany e d of
           Inl err \<Rightarrow> (d, ids, access, [Error_GrantAccessFailed (err_message err)])
         | Inr allOrganizations \<Rightarrow>
             (case create_access_all e (user_id user) allOrganizations (d, []) of
                (d1, lg) \<Rightarrow>
                  (case (if truthy (user_primaryOrganizationId user) then Inr d1
                         else (case allOrganizations of
                                 [] \<Rightarrow> Inr d1
                               | org0 # _ \<Rightarrow> user_update_primary e d1 (user_id user) (org_id org0))) of
                     Inl err \<Rightarrow> (d1, ids, access, lg @ [Error_GrantAccessFailed (err_message err)])
                   | Inr d2 \<Rightarrow>
                       (d2, map org_id allOrganizations,
                        map (temp_access (user_id user)) allOrganizations, lg))))
      else (d, ids, access, []))"

text \<open>Lines 246 to 249: the current organization.\<close>

definition select_current :: "request \<Rightarrow> user_row \<Rightarrow> string list \<Rightarrow> string option" where
  "select_current req user ids =
     js_or (js_or (x_organization_id req) (user_primaryOrganizationId user)) (first ids)"

text \<open>Lines 252 to 255: a selected organization outside the caller's ids.\<close>

definition no_access :: "string option \<Rightarrow> string list \<Rightarrow> bool" where
  "no_access cur ids = (case cur of None \<Rightarrow> False | Some c \<Rightarrow> c \<noteq> [] \<and> c \<notin> set ids)"

text \<open>Lines 170 to 300, for a user that was found and is active. The closing test of
  \<^verbatim>\<open>request.user\<close> cannot fail, the context having just been assigned, and has no
  branch here.\<close>

definition resolve_context ::
  "env \<Rightarrow> db \<Rightarrow> request \<Rightarrow> user_row \<Rightarrow> access_view list \<Rightarrow> outcome \<times> db \<times> log_event list" where
  "resolve_context e d req user access =
     (case self_heal e d user access of
        (d', ids, access', lg) \<Rightarrow>
          (let cur = select_current req user ids in
           if no_access cur ids
           then (Reply 403 ''forbidden'' ''No access to specified organization'', d',
                 lg @ [Warn_NoAccessToOrganization (case cur of Some c \<Rightarrow> c | None \<Rightarrow> []) (user_id user)])
           else (Attached \<lparr> ctx_id = user_id user, ctx_email = user_email user,
                            ctx_role = user_role user, organizationIds = ids,
                            primaryOrganizationId = js_or (user_primaryOrganizationId user) None,
                            currentOrganizationId = cur, organizationAccess = access' \<rparr>,
                 d', lg)))"

text \<open>The reply to a token that does not verify (lines 90 to 123).\<close>

definition jwt_failure :: "js_error \<Rightarrow> outcome" where
  "jwt_failure err =
     (if err_code err = Some ''FAST_JWT_INVALID_SIGNATURE''
      then Reply 401 ''unauthorized'' ''Invalid token signature''
      else if err_code err = Some ''FAST_JWT_EXPIRED''
      then Reply 401 ''unauthorized'' ''Token expired''
      else Reply 401 ''unauthorized'' (''Token verification failed: '' @ err_message err))"

text \<open>The \<^verbatim>\<open>preHandler\<close> hook. It returns the outcome, the store after the request and
  the warnings and errors logged.\<close>

definition authMiddleware :: "env \<Rightarrow> db \<Rightarrow> request \<Rightarrow> outcome \<times> db \<times> log_event list" where
  "authMiddleware e d req =
     (if includes_str (url req) ''/docs/'' \<or> includes_str (url req) ''/static/''
         \<or> startsWith (url req) ''/debug''
      then (Skipped, d, [])
      else if isPublicRoute e req then (Skipped, d, [])
      else if \<not> truthy (authorization req)
      then (Reply 401 ''unauthorized'' ''Missing authorization header'', d,
            [Warn_MissingAuthorization (url req)])
      else
        (let token = replace_first (case authorization req of Some a \<Rightarrow> a | None \<Rightarrow> []) ''Bearer '' [] in
         if token = []
         then (Reply 401 ''unauthorized'' ''Invalid authorization format'', d,
               [Warn_InvalidAuthorizationFormat (url req)])
         else
           (case jwt_verify e token of
              Inl jwtError \<Rightarrow> (jwt_failure jwtError, d, [Error_JwtVerificationFailed (err_message jwtError)])
            | Inr dec \<Rightarrow>
                (case user_findUnique e d (userId dec) of
                   Inl err \<Rightarrow>
                     (Reply 500 ''exception'' (''Authentication error: '' @ err_message err), d,
                      [Error_AuthMiddleware (err_message err)])
                 | Inr None \<Rightarrow>
                     (Reply 401 ''unauthorized'' ''User not found'', d, [Warn_UserNotFound (userId dec)])
                 | Inr (Some (user, access)) \<Rightarrow>
                     if \<not> user_active user
                     then (Reply 401 ''unauthorized'' ''User account is inactive'', d,
                           [Warn_UserInactive (userId dec)])
                     else resolve_context e d req user access))))"


text \<open>The requests that reach the resolution proper: not exempted, with a token that
  verifies, for a user that is found and active. \<open>user\<close> and \<open>access\<close> are what the
  lookup returned.\<close>

definition authenticates :: "env \<Rightarrow> db \<Rightarrow> request \<Rightarrow> user_row \<Rightarrow> access_view list \<Rightarrow> bool" where
  "authenticates e d req user access =
     (\<not> includes_str (url req) ''/docs/'' \<and> \<not> includes_str (url req) ''/static/''
      \<and> \<not> startsWith (url req) ''/debug'' \<and> \<not> isPublicRoute e req
      \<and> (case authorization req of
            None \<Rightarrow> False
          | Some a \<Rightarrow>
              a \<noteq> [] \<and> replace_first a ''Bearer '' [] \<noteq> []
              \<and> (case jwt_verify e (replace_first a ''Bearer '' []) of
                    Inl _ \<Rightarrow> False
                  | Inr dec \<Rightarrow>
                      user_findUnique e d (userId dec) = Inr (Some (user, access))
                      \<and> user_active user)))"

section \<open>The token codec as the routes use it\<close>

text \<open>
  \<^verbatim>\<open>routes/auth.ts\<close>, login and refresh. The token library is outside the repository: a
  signed token is represented by what was handed to \<^verbatim>\<open>server.jwt.sign\<close>, the payload as
  the list of its fields and the \<^verbatim>\<open>expiresIn\<close> option.
\<close>

datatype signed_token = Signed (token_claims: "(string \<times> string) list") (token_expiresIn: string)

record login_request =
  lr_email :: string
  lr_password :: string

record login_organization =
  lo_id :: string
  lo_name :: string
  lo_role :: string

record login_user =
  lu_id :: string
  lu_email :: string
  lu_role :: string
  lu_primaryOrganizationId :: "string option"
  lu_organizations :: "login_organization list"

datatype auth_reply =
    LoginReply signed_token login_user
  | RefreshReply signed_token
  | ErrorReply nat string string

text \<open>\<^verbatim>\<open>prisma.user.findUnique({ where: { email }, include: ... })\<close>\<close>

definition user_findUnique_email ::
  "env \<Rightarrow> db \<Rightarrow> string \<Rightarrow> js_error + (user_row \<times> access_view list) option" where
  "user_findUnique_email e d em =
     (case fault_user_findUnique e of
        Some err \<Rightarrow> Inl err
      | None \<Rightarrow>
          Inr (case find (\<lambda>u. user_email u = em) (users d) of
                 None \<Rightarrow> None
               | Some u \<Rightarrow> Some (u, active_access d u)))"

text \<open>\<^verbatim>\<open>prisma.user.update({ where: { id }, data: { lastLogin: new Date() } })\<close>\<close>

definition user_update_lastLogin :: "env \<Rightarrow> db \<Rightarrow> string \<Rightarrow> js_error + db" where
  "user_update_lastLogin e d uid =
     (case fault_user_update e of
        Some err \<Rightarrow> Inl err
      | None \<Rightarrow>
          if list_ex (\<lambda>u. user_id u = uid) (users d)
          then Inr (d\<lparr> users := map (\<lambda>u. if user_id u = uid
                                          then u\<lparr> user_lastLogin := Some (now e) \<rparr> else u)
                                  (users d) \<rparr>)
          else Inl (JsError ''Record to update not found.'' (Some ''P2025'')))"

text \<open>The \<^verbatim>\<open>organizations\<close> of the login reply read \<^verbatim>\<open>access.organization.id\<close>: a
  membership without its organization throws.\<close>

fun login_organizations :: "access_view list \<Rightarrow> login_organization list option" where
  "login_organizations [] = Some []"
| "login_organizations (a # as) =
     (case av_organization a of
        None \<Rightarrow> None
      | Some org \<Rightarrow>
          map_option (\<lambda>rest. \<lparr> lo_id = ov_id org, lo_name = ov_name org, lo_role = av_role a \<rparr> # rest)
            (login_organizations as))"

text \<open>\<^verbatim>\<open>POST /auth/login\<close>. Every error inside the handler's \<^verbatim>\<open>try\<close> is answered with 500.\<close>

definition login :: "env \<Rightarrow> db \<Rightarrow> login_request \<Rightarrow> auth_reply \<times> db" where
  "login e d body =
     (case user_findUnique_email e d (lr_email body) of
        Inl err \<Rightarrow> (ErrorReply 500 ''exception'' ''Internal server error'', d)
      | Inr None \<Rightarrow> (ErrorReply 401 ''unauthorized'' ''Invalid credentials'', d)
      | Inr (Some (user, access)) \<Rightarrow>
          if \<not> user_active user
          then (ErrorReply 401 ''unauthorized'' ''Invalid credentials'', d)
          else if \<not> bcrypt_compare e (lr_password body) (user_passwordHash user)
          then (ErrorReply 401 ''unauthorized'' ''Invalid credentials'', d)
          else
            (case user_update_lastLogin e d (user_id user) of
               Inl err \<Rightarrow> (ErrorReply 500 ''exception'' ''Internal server error'', d)
             | Inr d' \<Rightarrow>
                 (let token = Signed [(''userId'', user_id user), (''email'', user_email user),
                                      (''role'', user_role user)] (expiresIn e) in
                  case login_organizations access of
                    None \<Rightarrow> (ErrorReply 500 ''exception'' ''Internal server error'', d')
                  | Some orgs \<Rightarrow>
                      (LoginReply token
                         \<lparr> lu_id = user_id user, lu_email = user_email user, lu_role = user_role user,
                           lu_primaryOrganizationId = user_primaryOrganizationId user,
                           lu_organizations = orgs \<rparr>, d'))))"

text \<open>\<^verbatim>\<open>POST /auth/refresh\<close>, for the context the resolver attached.\<close>

definition refresh :: "env \<Rightarrow> user_context \<Rightarrow> auth_reply" where
  "refresh e user =
     RefreshReply (Signed [(''userId'', ctx_id user), (''email'', ctx_email user),
                           (''role'', ctx_role user)] (expiresIn e))"


section \<open>Patient routes\<close>

text \<open>
  \<^verbatim>\<open>routes/patients.ts\<close>: the search and the read of a patient, which scope their query by
  the \<open>organizationIds\<close> of the attached context. The patient tables are kept apart from
  the credential store; the resolver never touches them. \<^verbatim>\<open>new Date\<close> and
  \<^verbatim>\<open>toLowerCase\<close> belong to the runtime and are parameters.
\<close>

record human_name =
  hn_family :: "string option"
  hn_given :: "string list option"

record patient_row =
  patient_id :: string
  patient_name :: "human_name list"
  patient_birthDate :: "nat option"

record patient_organization_row =
  po_patientId :: string
  po_organizationId :: string
  po_status :: string

record patient_tables =
  patients :: "patient_row list"
  patientOrganizations :: "patient_organization_row list"

record patient_query =
  q_organization :: "string option"
  q_name :: "string option"
  q_birthdate :: "string option"

record runtime =
  new_Date :: "string \<Rightarrow> nat option"
  toLowerCase :: "string \<Rightarrow> string"

datatype patient_reply =
    Bundle "patient_row list"
  | PatientResource patient_row
  | OperationOutcome nat string string

text \<open>\<^verbatim>\<open>organizations: { some: { organizationId: { in: organizationIds }, status: 'active' } }\<close>\<close>

definition organization_scope :: "patient_tables \<Rightarrow> string list \<Rightarrow> patient_row \<Rightarrow> bool" where
  "organization_scope t ids p =
     list_ex (\<lambda>l. po_patientId l = patient_id p \<and> po_organizationId l \<in> set ids
                  \<and> po_status l = ''active'')
       (patientOrganizations t)"

definition name_matches :: "runtime \<Rightarrow> string \<Rightarrow> patient_row \<Rightarrow> bool" where
  "name_matches rt q p =
     list_ex (\<lambda>n.
         (case hn_family n of
            None \<Rightarrow> False
          | Some f \<Rightarrow> includes_str (toLowerCase rt f) (toLowerCase rt q))
         \<or> (case hn_given n of
               None \<Rightarrow> False
             | Some gs \<Rightarrow> list_ex (\<lambda>g. includes_str (toLowerCase rt g) (toLowerCase rt q)) gs))
       (patient_name p)"

text \<open>\<^verbatim>\<open>GET /fhir/Patient\<close>. A birth date that does not parse makes the query throw, which
  the handler answers with 500.\<close>

definition searchPatients ::
  "runtime \<Rightarrow> patient_tables \<Rightarrow> user_context \<Rightarrow> patient_query \<Rightarrow> patient_reply" where
  "searchPatients rt t user query =
     (let birth = (case q_birthdate query of
                     None \<Rightarrow> None
                   | Some b \<Rightarrow> if b = [] then None else Some (new_Date rt b)) in
      case birth of
        Some None \<Rightarrow> OperationOutcome 500 ''exception'' ''Internal server error''
      | _ \<Rightarrow>
          (let found = filter (\<lambda>p. organization_scope t (organizationIds user) p
                                   \<and> (case birth of
                                         Some (Some day) \<Rightarrow> patient_birthDate p = Some day
                                       | _ \<Rightarrow> True))
                         (patients t) in
           Bundle (case q_name query of
                     None \<Rightarrow> found
                   | Some n \<Rightarrow> if n = [] then found else filter (name_matches rt n) found)))"


section \<open>Practitioner routes\<close>







section \<open>Requests that run at the same time\<close>

text \<open>
  The runtime is single-threaded: a handler runs alone up to its next \<^verbatim>\<open>await\<close>, and other
  requests may run in between. For the store, a request passing through the grant of
  lines 176 to 244 is the sequence of its store calls; \<open>proc\<close> is the point a request has
  reached, and \<open>proc_step\<close> performs its next store call. A schedule names, step by step,
  the request that moves.
\<close>

datatype proc =
    P_lookup
  | P_enumerate user_row
  | P_create user_row "org_row list" "org_row list"
  | P_done

fun proc_step :: "env \<Rightarrow> string \<Rightarrow> db \<Rightarrow> proc \<Rightarrow> db \<times> proc" where
  "proc_step e uid d P_lookup =
     (case user_findUnique e d uid of
        Inr (Some (user, access)) \<Rightarrow>
          if user_active user \<and> map av_organizationId access = [] \<and> user_role user = ''super_admin''
          then (d, P_enumerate user) else (d, P_done)
      | _ \<Rightarrow> (d, P_done))"
| "proc_step e uid d (P_enumerate user) =
     (case organization_findMany e d of
        Inl err \<Rightarrow> (d, P_done)
      | Inr allOrganizations \<Rightarrow> (d, P_create user allOrganizations allOrganizations))"
| "proc_step e uid d (P_create user allOrganizations (org # rest)) =
     (fst (create_access_all e (user_id user) [org] (d, [])), P_create user allOrganizations rest)"
| "proc_step e uid d (P_create user allOrganizations []) =
     (case (if truthy (user_primaryOrganizationId user) then Inr d
            else (case allOrganizations of
                    [] \<Rightarrow> Inr d
                  | org0 # _ \<Rightarrow> user_update_primary e d (user_id user) (org_id org0))) of
        Inl err \<Rightarrow> (d, P_done)
      | Inr d' \<Rightarrow> (d', P_done))"
| "proc_step e uid d P_done = (d, P_done)"

definition sched_step :: "env \<Rightarrow> string \<Rightarrow> db \<times> proc list \<Rightarrow> nat \<Rightarrow> db \<times> proc list" where
  "sched_step e uid cfg i =
     (case cfg of (d, ps) \<Rightarrow>
        if i < length ps
        then (case proc_step e uid d (ps ! i) of (d', p') \<Rightarrow> (d', ps[i := p']))
        else (d, ps))"

definition run :: "env \<Rightarrow> string \<Rightarrow> nat list \<Rightarrow> db \<times> proc list \<Rightarrow> db \<times> proc list" where
  "run e uid sched cfg = foldl (sched_step e uid) cfg sched"

text \<open>The rows of the membership table for one pair.\<close>

definition access_rows :: "db \<Rightarrow> string \<Rightarrow> string \<Rightarrow> access_row list" where
  "access_rows d uid oid =
     filter (\<lambda>a. access_userId a = uid \<and> access_organizationId a = oid) (userOrganizationAccess d)"

text \<open>The unique constraint of the membership table, as a property of its content.\<close>

definition unique_access :: "db \<Rightarrow> bool" where
  "unique_access d =
     distinct (map (\<lambda>a. (access_userId a, access_organizationId a)) (userOrganizationAccess d))"

text \<open>The store calls a request still has to make, at most, when \<open>N\<close> organizations
  are active.\<close>

fun steps_left :: "nat \<Rightarrow> proc \<Rightarrow> nat" where
  "steps_left N P_lookup = N + 3"
| "steps_left N (P_enumerate user) = N + 2"
| "steps_left N (P_create user allOrganizations rest) = length rest + 1"
| "steps_left N P_done = 0"

text \<open>
  The invariant of the runs for the user \<open>uid\<close> from a store \<open>d0\<close>. \<open>pending\<close> is what a
  request may still insert. Either every active organization has its row or is pending
  in some request, or no request has looked the user up yet.
\<close>

fun pending :: "proc \<Rightarrow> string set" where
  "pending P_lookup = {}"
| "pending (P_enumerate user) = UNIV"
| "pending (P_create user allOrganizations rest) = org_id ` set rest"
| "pending P_done = {}"

fun proc_for :: "string \<Rightarrow> proc \<Rightarrow> bool" where
  "proc_for uid (P_enumerate user) = (user_id user = uid)"
| "proc_for uid (P_create user allOrganizations rest) = (user_id user = uid)"
| "proc_for uid P_lookup = True"
| "proc_for uid P_done = True"

definition active_rows :: "db \<Rightarrow> string \<Rightarrow> access_row list" where
  "active_rows d uid =
     filter (\<lambda>a. access_userId a = uid \<and> access_status a = ''active'') (userOrganizationAccess d)"

definition super_admin_stored :: "db \<Rightarrow> string \<Rightarrow> bool" where
  "super_admin_stored d uid =
     (case find (\<lambda>u. user_id u = uid) (users d) of
        None \<Rightarrow> False
      | Some u \<Rightarrow> user_role u = ''super_admin'' \<and> user_active u)"

definition covered :: "db \<Rightarrow> string \<Rightarrow> db \<Rightarrow> proc list \<Rightarrow> bool" where
  "covered d0 uid d ps =
     (\<forall>org \<in> set (organizations d0). org_active org \<longrightarrow>
        has_access_row d uid (org_id org) \<or> (\<exists>p \<in> set ps. org_id org \<in> pending p))"

definition grant_inv :: "db \<Rightarrow> string \<Rightarrow> db \<times> proc list \<Rightarrow> bool" where
  "grant_inv d0 uid cfg =
     (case cfg of (d, ps) \<Rightarrow>
        organizations d = organizations d0 \<and> unique_access d \<and> super_admin_stored d uid
        \<and> (\<forall>p \<in> set ps. proc_for uid p)
        \<and> (covered d0 uid d ps
            \<or> (active_rows d uid = [] \<and> ps \<noteq> [] \<and> (\<forall>p \<in> set ps. p = P_lookup))))"

section \<open>The scenarios of the specification\<close>

text \<open>
  Super-admin \<open>A\<close> without memberships, organizations \<open>O1\<close> and \<open>O2\<close> active, org-admin
  \<open>B\<close> member of \<open>O3\<close> only, practitioner \<open>C\<close> without memberships, and a closed
  organization \<open>O9\<close>.
\<close>

definition scenario_env :: env where
  "scenario_env =
     \<lparr> jwt_verify = (\<lambda>t. if t = ''token-A'' then Inr \<lparr> userId = ''A'', email = ''a@hospital.com'', role = ''super_admin'' \<rparr>
                          else if t = ''token-B'' then Inr \<lparr> userId = ''B'', email = ''b@hospital.com'', role = ''org_admin'' \<rparr>
                          else if t = ''token-C'' then Inr \<lparr> userId = ''C'', email = ''c@hospital.com'', role = ''practitioner'' \<rparr>
                          else Inl (JsError ''The token is malformed.'' (Some ''FAST_JWT_MALFORMED''))),
       bcrypt_compare = (\<lambda>password hash. hash = ''hash:'' @ password),
       cuid = (\<lambda>n. ''c'' @ replicate n CHR ''0''),
       basePath = ''/api'', expiresIn = ''24h'', now = 1,
       fault_user_findUnique = None, fault_organization_findMany = None,
       fault_access_create = (\<lambda>_. None), fault_user_update = None \<rparr>"

definition user_A :: user_row where
  "user_A = \<lparr> user_id = ''A'', user_email = ''a@hospital.com'', user_passwordHash = ''hash:pw-a'',
              user_role = ''super_admin'', user_primaryOrganizationId = None,
              user_active = True, user_lastLogin = None \<rparr>"

definition user_B :: user_row where
  "user_B = \<lparr> user_id = ''B'', user_email = ''b@hospital.com'', user_passwordHash = ''hash:pw-b'',
              user_role = ''org_admin'', user_primaryOrganizationId = None,
              user_active = True, user_lastLogin = None \<rparr>"

definition user_C :: user_row where
  "user_C = \<lparr> user_id = ''C'', user_email = ''c@hospital.com'', user_passwordHash = ''hash:pw-c'',
              user_role = ''practitioner'', user_primaryOrganizationId = None,
              user_active = True, user_lastLogin = None \<rparr>"

definition org_O1 :: org_row where
  "org_O1 = \<lparr> org_id = ''O1'', org_name = ''Clinic One'', org_active = True \<rparr>"

definition org_O2 :: org_row where
  "org_O2 = \<lparr> org_id = ''O2'', org_name = ''Clinic Two'', org_active = True \<rparr>"

definition scenario_db :: db where
  "scenario_db =
     \<lparr> users = [user_A, user_B, user_C],
       userOrganizationAccess =
         [\<lparr> access_id = ''m1'', access_userId = ''B'', access_organizationId = ''O3'',
            access_role = ''admin'', access_status = ''active'' \<rparr>],
       organizations =
         [org_O1, org_O2,
          \<lparr> org_id = ''O3'', org_name = ''Clinic Three'', org_active = True \<rparr>,
          \<lparr> org_id = ''O9'', org_name = ''Closed'', org_active = False \<rparr>] \<rparr>"

definition small_db :: db where
  "small_db = \<lparr> users = [user_A], userOrganizationAccess = [], organizations = [org_O1] \<rparr>"

definition request_of :: "string \<Rightarrow> string option \<Rightarrow> request" where
  "request_of token org =
     \<lparr> url = ''/fhir/Patient'', authorization = Some (''Bearer '' @ token), x_organization_id = org \<rparr>"


text \<open>What the resolver is expected to attach for \<open>B\<close>, and \<open>B\<close>'s loaded memberships.\<close>

definition access_B :: "access_view list" where
  "access_B =
     [\<lparr> av_id = ''m1'', av_userId = ''B'', av_organizationId = ''O3'', av_role = ''admin'',
        av_status = ''active'',
        av_organization = Some \<lparr> ov_id = ''O3'', ov_name = ''Clinic Three'', ov_active = True \<rparr> \<rparr>]"

definition context_B :: user_context where
  "context_B =
     \<lparr> ctx_id = ''B'', ctx_email = ''b@hospital.com'', ctx_role = ''org_admin'',
       organizationIds = [''O3''], primaryOrganizationId = None,
       currentOrganizationId = Some ''O3'', organizationAccess = access_B \<rparr>"

text \<open>The store after the first request of \<open>A\<close>, and the context attached to a request of
  \<open>A\<close> with the given current organization.\<close>

definition healed_db :: db where
  "healed_db =
     \<lparr> users = [user_A\<lparr> user_primaryOrganizationId := Some ''O1'' \<rparr>, user_B, user_C],
       userOrganizationAccess =
         [\<lparr> access_id = ''m1'', access_userId = ''B'', access_organizationId = ''O3'',
            access_role = ''admin'', access_status = ''active'' \<rparr>,
          \<lparr> access_id = ''c0'', access_userId = ''A'', access_organizationId = ''O1'',
            access_role = ''admin'', access_status = ''active'' \<rparr>,
          \<lparr> access_id = ''c00'', access_userId = ''A'', access_organizationId = ''O2'',
            access_role = ''admin'', access_status = ''active'' \<rparr>,
          \<lparr> access_id = ''c000'', access_userId = ''A'', access_organizationId = ''O3'',
            access_role = ''admin'', access_status = ''active'' \<rparr>],
       organizations = organizations scenario_db \<rparr>"

definition context_A :: "string option \<Rightarrow> user_context" where
  "context_A cur =
     \<lparr> ctx_id = ''A'', ctx_email = ''a@hospital.com'', ctx_role = ''super_admin'',
       organizationIds = [''O1'', ''O2'', ''O3''], primaryOrganizationId = None,
       currentOrganizationId = cur,
       organizationAccess =
         map (temp_access ''A'') (filter org_active (organizations scenario_db)) \<rparr>"

text \<open>The context of a later request of \<open>A\<close>, once the memberships are stored.\<close>

definition context_A_second :: "string option \<Rightarrow> user_context" where
  "context_A_second cur =
     \<lparr> ctx_id = ''A'', ctx_email = ''a@hospital.com'', ctx_role = ''super_admin'',
       organizationIds = [''O1'', ''O2'', ''O3''], primaryOrganizationId = Some ''O1'',
       currentOrganizationId = cur,
       organizationAccess = active_access healed_db user_A \<rparr>"

text \<open>A store in which \<open>A\<close> has a suspended membership of \<open>O1\<close>, and a store call that
  fails.\<close>

definition suspended_db :: db where
  "suspended_db =
     \<lparr> users = [user_A],
       userOrganizationAccess =
         [\<lparr> access_id = ''m2'', access_userId = ''A'', access_organizationId = ''O1'',
            access_role = ''admin'', access_status = ''suspended'' \<rparr>],
       organizations = [org_O1, org_O2] \<rparr>"

definition store_down :: js_error where
  "store_down = JsError ''Cannot reach database server'' (Some ''P1001'')"

text \<open>A patient registered at \<open>O1\<close>, the context expected for \<open>C\<close>, and a runtime whose
  \<^verbatim>\<open>toLowerCase\<close> is the identity and whose dates never parse.\<close>

definition scenario_patients :: patient_tables where
  "scenario_patients =
     \<lparr> patients =
         [\<lparr> patient_id = ''p1'',
            patient_name = [\<lparr> hn_family = Some ''doe'', hn_given = Some [''jane''] \<rparr>],
            patient_birthDate = None \<rparr>],
       patientOrganizations =
         [\<lparr> po_patientId = ''p1'', po_organizationId = ''O1'', po_status = ''active'' \<rparr>] \<rparr>"

definition scenario_runtime :: runtime where
  "scenario_runtime = \<lparr> new_Date = (\<lambda>_. None), toLowerCase = (\<lambda>s. s) \<rparr>"


definition any_patient :: patient_query where
  "any_patient = \<lparr> q_organization = None, q_name = None, q_birthdate = None \<rparr>"

text \<open>The login of \<open>B\<close> and the token expected for it.\<close>

definition login_B :: login_request where
  "login_B = \<lparr> lr_email = ''b@hospital.com'', lr_password = ''pw-b'' \<rparr>"

definition token_B :: signed_token where
  "token_B = Signed [(''userId'', ''B''), (''email'', ''b@hospital.com''), (''role'', ''org_admin'')] ''24h''"

definition login_user_B :: login_user where
  "login_user_B =
     \<lparr> lu_id = ''B'', lu_email = ''b@hospital.com'', lu_role = ''org_admin'',
       lu_primaryOrganizationId = None,
       lu_organizations = [\<lparr> lo_id = ''O3'', lo_name = ''Clinic Three'', lo_role = ''admin'' \<rparr>] \<rparr>"

text \<open>The small store after the grant.\<close>

definition small_db_healed :: db where
  "small_db_healed =
     \<lparr> users = [user_A\<lparr> user_primaryOrganizationId := Some ''O1'' \<rparr>],
       userOrganizationAccess =
         [\<lparr> access_id = ''c'', access_userId = ''A'', access_organizationId = ''O1'',
            access_role = ''admin'', access_status = ''active'' \<rparr>],
       organizations = [org_O1] \<rparr>"

text \<open>The store and the context of \<open>A\<close> when the update of the primary organization
  fails: the memberships are stored, the primary organization is not.\<close>

definition granted_db :: db where
  "granted_db = healed_db\<lparr> users := users scenario_db \<rparr>"

definition context_A_empty :: user_context where
  "context_A_empty =
     \<lparr> ctx_id = ''A'', ctx_email = ''a@hospital.com'', ctx_role = ''super_admin'',
       organizationIds = [], primaryOrganizationId = None,
       currentOrganizationId = None, organizationAccess = [] \<rparr>"

text \<open>A store in which the primary organization of \<open>A\<close> is \<open>O2\<close>, not the first of the
  memberships.\<close>

definition user_A_O2 :: user_row where
  "user_A_O2 = user_A\<lparr> user_primaryOrganizationId := Some ''O2'' \<rparr>"

definition primary_db :: db where
  "primary_db = healed_db\<lparr> users := [user_A_O2, user_B, user_C] \<rparr>"

definition context_A_primary :: user_context where
  "context_A_primary =
     \<lparr> ctx_id = ''A'', ctx_email = ''a@hospital.com'', ctx_role = ''super_admin'',
       organizationIds = [''O1'', ''O2'', ''O3''], primaryOrganizationId = Some ''O2'',
       currentOrganizationId = Some ''O2'',
       organizationAccess = active_access healed_db user_A \<rparr>"




section \<open>String predicates\<close>

lemma startsWith_iff: "startsWith s n \<longleftrightarrow> (\<exists>q. s = n @ q)"
  by (induction s n rule: startsWith.induct) auto

lemma includes_str_iff: "includes_str s n \<longleftrightarrow> (\<exists>p q. s = p @ n @ q)"
proof (induction s)
  case Nil
  then show ?case by auto
next
  case (Cons x xs)
  show ?case
  proof
    assume "includes_str (x # xs) n"
    then consider "startsWith (x # xs) n" | "includes_str xs n" by auto
    then show "\<exists>p q. x # xs = p @ n @ q"
    proof cases
      case 1
      then obtain q where "x # xs = n @ q" unfolding startsWith_iff by blast
      then have "x # xs = [] @ n @ q" by simp
      then show ?thesis by blast
    next
      case 2
      then obtain p q where "xs = p @ n @ q" using Cons.IH by blast
      then have "x # xs = (x # p) @ n @ q" by simp
      then show ?thesis by blast
    qed
  next
    assume "\<exists>p q. x # xs = p @ n @ q"
    then obtain p q where pq: "x # xs = p @ n @ q" by blast
    show "includes_str (x # xs) n"
    proof (cases p)
      case Nil
      with pq have "startsWith (x # xs) n" unfolding startsWith_iff by auto
      then show ?thesis by simp
    next
      case (Cons y ys)
      with pq have "xs = ys @ n @ q" by simp
      then have "includes_str xs n" using Cons.IH by blast
      then show ?thesis by simp
    qed
  qed
qed

section \<open>The exempted routes\<close>

text \<open>
  Claim C9. A request whose URL contains \<^verbatim>\<open>/docs/\<close> or \<^verbatim>\<open>/static/\<close> anywhere, or starts
  with \<^verbatim>\<open>/debug\<close> or with one of the public routes, leaves the hook without a reply and
  without a context: no header is read, the token library and the store are not called
  (the result does not depend on them), the store is unchanged and nothing is logged.
  The test is on the raw URL, so a resource URL that merely contains one of the
  substrings is exempted as well.
\<close>

theorem public_bypass:
  assumes "(\<exists>p q. url req = p @ ''/docs/'' @ q) \<or> (\<exists>p q. url req = p @ ''/static/'' @ q)
           \<or> (\<exists>q. url req = ''/debug'' @ q)
           \<or> (\<exists>route \<in> set (publicRoutes e). \<exists>q. url req = route @ q)"
  shows "authMiddleware e d req = (Skipped, d, [])"
proof -
  from assms consider
      (static) "includes_str (url req) ''/docs/'' \<or> includes_str (url req) ''/static/''
                 \<or> startsWith (url req) ''/debug''"
    | (public) "\<exists>route \<in> set (publicRoutes e). startsWith (url req) route"
    unfolding includes_str_iff startsWith_iff by blast
  then show ?thesis
  proof cases
    case static
    then show ?thesis unfolding authMiddleware_def by (simp only: if_True)
  next
    case public
    then have "isPublicRoute e req"
      unfolding isPublicRoute_def list_ex_iff by blast
    then show ?thesis unfolding authMiddleware_def by (simp only: if_True if_cancel)
  qed
qed

theorem public_bypass_witness:
  "url \<lparr> url = ''/fhir/Patient?name=/static/'', authorization = None, x_organization_id = None \<rparr>
      = ''/fhir/Patient?name='' @ ''/static/'' @ []
   \<and> authMiddleware scenario_env scenario_db
        \<lparr> url = ''/fhir/Patient?name=/static/'', authorization = None, x_organization_id = None \<rparr>
      = (Skipped, scenario_db, [])"
proof -
  let ?req = "\<lparr> url = ''/fhir/Patient?name=/static/'', authorization = None, x_organization_id = None \<rparr>"
  have u: "url ?req = ''/fhir/Patient?name='' @ ''/static/'' @ []" by simp
  then have "\<exists>p q. url ?req = p @ ''/static/'' @ q" by blast
  then have "authMiddleware scenario_env scenario_db ?req = (Skipped, scenario_db, [])"
    by (intro public_bypass) blast
  with u show ?thesis by blast
qed

section \<open>Reaching the resolution\<close>

lemma authenticates_resolve:
  assumes "authenticates e d req user access"
  shows "authMiddleware e d req = resolve_context e d req user access"
proof -
  from assms obtain a where a: "authorization req = Some a" "a \<noteq> []"
    and tok: "replace_first a ''Bearer '' [] \<noteq> []"
    unfolding authenticates_def by (auto split: option.splits)
  from assms a obtain dec where dec: "jwt_verify e (replace_first a ''Bearer '' []) = Inr dec"
    and found: "user_findUnique e d (userId dec) = Inr (Some (user, access))"
    and act: "user_active user"
    unfolding authenticates_def by (auto split: sum.splits)
  from assms have nb: "\<not> includes_str (url req) ''/docs/''" "\<not> includes_str (url req) ''/static/''"
    "\<not> startsWith (url req) ''/debug''" "\<not> isPublicRoute e req"
    unfolding authenticates_def by simp_all
  have tr: "truthy (Some a)" using a by (simp add: truthy_def)
  show ?thesis
    unfolding authMiddleware_def
    by (simp only: nb tr a tok dec found act Let_def if_False if_True not_True_eq_False not_False_eq_True
          option.case sum.case prod.case simp_thms)
qed

lemma no_access_select:
  "\<not> no_access (select_current req user ids) ids \<Longrightarrow> ids \<noteq> [] \<Longrightarrow>
    \<exists>c. select_current req user ids = Some c \<and> c \<in> set ids"
  by (cases ids) (auto simp: no_access_def select_current_def js_or_def truthy_def split: option.splits if_splits)

lemma resolve_context_cases:
  assumes "self_heal e d user access = (d', ids, access', lg)"
  shows "resolve_context e d req user access =
     (if no_access (select_current req user ids) ids
      then (Reply 403 ''forbidden'' ''No access to specified organization'', d',
            lg @ [Warn_NoAccessToOrganization (case select_current req user ids of Some c \<Rightarrow> c | None \<Rightarrow> []) (user_id user)])
      else (Attached \<lparr> ctx_id = user_id user, ctx_email = user_email user,
                            ctx_role = user_role user, organizationIds = ids,
                            primaryOrganizationId = js_or (user_primaryOrganizationId user) None,
                            currentOrganizationId = select_current req user ids, organizationAccess = access' \<rparr>,
                 d', lg))"
  unfolding resolve_context_def by (simp add: assms Let_def)

lemma resolve_context_attached:
  assumes "resolve_context e d req user access = (Attached ctx, d', lg)"
  shows "\<exists>access'. self_heal e d user access = (d', organizationIds ctx, access', lg)
      \<and> \<not> no_access (select_current req user (organizationIds ctx)) (organizationIds ctx)
      \<and> currentOrganizationId ctx = select_current req user (organizationIds ctx)
      \<and> primaryOrganizationId ctx = js_or (user_primaryOrganizationId user) None"
proof -
  obtain d1 ids acc lg1 where sh: "self_heal e d user access = (d1, ids, acc, lg1)"
    by (cases "self_heal e d user access") auto
  show ?thesis using assms unfolding resolve_context_cases[OF sh] sh
    by (auto split: if_splits)
qed

lemma authMiddleware_attached:
  assumes "authMiddleware e d req = (Attached ctx, d', lg)"
  shows "\<exists>user access. authenticates e d req user access"
  using assms unfolding authMiddleware_def authenticates_def jwt_failure_def
  by (auto simp: Let_def truthy_def split: if_splits option.splits sum.splits)


section \<open>The consistency check\<close>

text \<open>
  Claim C1. Whenever the hook attaches a context whose \<open>organizationIds\<close> is not empty,
  its \<open>currentOrganizationId\<close> is an element of \<open>organizationIds\<close>. Otherwise the
  request is rejected: for an authenticated caller whose selected organization is a
  non-empty id outside the ids computed for the request, the reply is 403.
\<close>
theorem current_organization_is_member:
  "(authMiddleware e d req = (Attached ctx, d', lg) \<and> organizationIds ctx \<noteq> []
      \<longrightarrow> (\<exists>c. currentOrganizationId ctx = Some c \<and> c \<in> set (organizationIds ctx)))
   \<and> (authenticates e d req user access
        \<and> self_heal e d user access = (d1, ids, access1, lg1)
        \<and> select_current req user ids = Some c \<and> c \<noteq> [] \<and> c \<notin> set ids
      \<longrightarrow> fst (authMiddleware e d req) = Reply 403 ''forbidden'' ''No access to specified organization'')"
proof (intro conjI impI)
  assume a: "authMiddleware e d req = (Attached ctx, d', lg) \<and> organizationIds ctx \<noteq> []"
  then obtain u acc where "authenticates e d req u acc"
    using authMiddleware_attached by blast
  then have "resolve_context e d req u acc = (Attached ctx, d', lg)"
    using a authenticates_resolve by simp
  from resolve_context_attached[OF this]
  have na: "\<not> no_access (select_current req u (organizationIds ctx)) (organizationIds ctx)"
    and cur: "currentOrganizationId ctx = select_current req u (organizationIds ctx)"
    by blast+
  from no_access_select[OF na] a cur
  show "\<exists>c. currentOrganizationId ctx = Some c \<and> c \<in> set (organizationIds ctx)" by simp
next
  assume a: "authenticates e d req user access
        \<and> self_heal e d user access = (d1, ids, access1, lg1)
        \<and> select_current req user ids = Some c \<and> c \<noteq> [] \<and> c \<notin> set ids"
  then have au: "authenticates e d req user access"
    and sh: "self_heal e d user access = (d1, ids, access1, lg1)"
    and na: "no_access (select_current req user ids) ids"
    by (simp_all add: no_access_def)
  show "fst (authMiddleware e d req) = Reply 403 ''forbidden'' ''No access to specified organization''"
    unfolding authenticates_resolve[OF au] resolve_context_cases[OF sh] using na by simp
qed

text \<open>
  Claim C3. A request of an authenticated caller whose \<^verbatim>\<open>x-organization-id\<close> header names
  an organization (a non-empty id) that is not among the caller's \<open>organizationIds\<close>, as
  computed for this request, is answered with 403 \<^verbatim>\<open>forbidden\<close>; no context is attached,
  whatever the primary organization or the memberships are.
\<close>
theorem foreign_header_forbidden:
  assumes "authenticates e d req user access"
      and "self_heal e d user access = (d', ids, access', lg)"
      and "x_organization_id req = Some h" and "h \<noteq> []" and "h \<notin> set ids"
  shows "authMiddleware e d req =
           (Reply 403 ''forbidden'' ''No access to specified organization'', d',
            lg @ [Warn_NoAccessToOrganization h (user_id user)])"
proof -
  have cur: "select_current req user ids = Some h"
    using assms(3,4) by (simp add: select_current_def js_or_def truthy_def)
  then have "no_access (select_current req user ids) ids"
    using assms(4,5) by (simp add: no_access_def)
  then show ?thesis
    using assms(1,2) cur by (simp add: authenticates_resolve resolve_context_cases)
qed

section \<open>The scenarios, evaluated\<close>

lemmas scenario_defs = scenario_env_def scenario_db_def user_A_def user_B_def user_C_def org_O1_def org_O2_def
  request_of_def

lemmas lookup_defs = authenticates_def isPublicRoute_def publicRoutes_def user_findUnique_def
  active_access_def join_organization_def

lemma authenticates_B: "authenticates scenario_env scenario_db (request_of ''token-B'' org) user_B access_B"
  by (simp add: scenario_defs lookup_defs access_B_def)

lemma self_heal_B: "self_heal scenario_env scenario_db user_B access_B = (scenario_db, [''O3''], access_B, [])"
  by (simp add: self_heal_def access_B_def user_B_def)

lemma resolve_B: "authMiddleware scenario_env scenario_db (request_of ''token-B'' None)
   = (Attached context_B, scenario_db, [])"
  unfolding authenticates_resolve[OF authenticates_B] resolve_context_cases[OF self_heal_B]
  by (simp add: select_current_def js_or_def truthy_def no_access_def request_of_def user_B_def context_B_def)

theorem current_organization_is_member_witness:
  "authMiddleware scenario_env scenario_db (request_of ''token-B'' None) = (Attached context_B, scenario_db, [])
   \<and> organizationIds context_B \<noteq> []
   \<and> (\<exists>c. currentOrganizationId context_B = Some c \<and> c \<in> set (organizationIds context_B))
   \<and> authenticates scenario_env scenario_db (request_of ''token-B'' (Some ''O4'')) user_B access_B
   \<and> self_heal scenario_env scenario_db user_B access_B = (scenario_db, [''O3''], access_B, [])
   \<and> select_current (request_of ''token-B'' (Some ''O4'')) user_B [''O3''] = Some ''O4''
   \<and> ''O4'' \<notin> set [''O3'']
   \<and> fst (authMiddleware scenario_env scenario_db (request_of ''token-B'' (Some ''O4'')))
       = Reply 403 ''forbidden'' ''No access to specified organization''"
proof -
  have ne: "organizationIds context_B \<noteq> []" by (simp add: context_B_def)
  have sel: "select_current (request_of ''token-B'' (Some ''O4'')) user_B [''O3''] = Some ''O4''"
    by (simp add: select_current_def js_or_def truthy_def request_of_def)
  have nin: "''O4'' \<noteq> [] \<and> ''O4'' \<notin> set [''O3'']" by simp
  note thm1 = current_organization_is_member
      [where e = scenario_env and d = scenario_db and req = "request_of ''token-B'' None"
         and ctx = context_B and d' = scenario_db and lg = "[]",
       THEN conjunct1, rule_format]
  note thm2 = current_organization_is_member
      [where e = scenario_env and d = scenario_db and req = "request_of ''token-B'' (Some ''O4'')"
         and user = user_B and access = access_B and ?d1.0 = scenario_db and ids = "[''O3'']"
         and ?access1.0 = access_B and ?lg1.0 = "[]" and c = "''O4''",
       THEN conjunct2, rule_format]
  have c1: "\<exists>c. currentOrganizationId context_B = Some c \<and> c \<in> set (organizationIds context_B)"
    using thm1 resolve_B ne by blast
  have c2: "fst (authMiddleware scenario_env scenario_db (request_of ''token-B'' (Some ''O4'')))
       = Reply 403 ''forbidden'' ''No access to specified organization''"
    using thm2 authenticates_B self_heal_B sel nin by blast
  show ?thesis using resolve_B ne c1 authenticates_B self_heal_B sel nin c2 by blast
qed

theorem foreign_header_forbidden_witness:
  "authenticates scenario_env scenario_db (request_of ''token-B'' (Some ''O4'')) user_B access_B
   \<and> self_heal scenario_env scenario_db user_B access_B = (scenario_db, [''O3''], access_B, [])
   \<and> x_organization_id (request_of ''token-B'' (Some ''O4'')) = Some ''O4''
   \<and> ''O4'' \<noteq> [] \<and> ''O4'' \<notin> set [''O3'']
   \<and> authMiddleware scenario_env scenario_db (request_of ''token-B'' (Some ''O4''))
       = (Reply 403 ''forbidden'' ''No access to specified organization'', scenario_db,
          [] @ [Warn_NoAccessToOrganization ''O4'' (user_id user_B)])"
proof -
  have h: "x_organization_id (request_of ''token-B'' (Some ''O4'')) = Some ''O4''"
    by (simp add: request_of_def)
  have n1: "''O4'' \<noteq> []" and n2: "''O4'' \<notin> set [''O3'']" by simp_all
  from foreign_header_forbidden[OF authenticates_B self_heal_B h n1 n2]
  show ?thesis using authenticates_B self_heal_B h n1 n2 by blast
qed

section \<open>The grant for a super-admin without memberships\<close>

lemma create_one_frame:
  "userOrganizationAccess_create e d uid oid r st = Inr d' \<Longrightarrow>
     users d' = users d \<and> organizations d' = organizations d"
  by (auto simp: userOrganizationAccess_create_def split: option.splits if_splits)

lemma create_access_all_frame:
  "users (fst (create_access_all e uid orgs (d, lg))) = users d
   \<and> organizations (fst (create_access_all e uid orgs (d, lg))) = organizations d"
proof (induction orgs arbitrary: d lg)
  case Nil
  show ?case by simp
next
  case (Cons org orgs)
  show ?case
  proof (cases "userOrganizationAccess_create e d uid (org_id org) ''admin'' ''active''")
    case (Inl err)
    then show ?thesis using Cons.IH by simp
  next
    case (Inr d1)
    then show ?thesis using Cons.IH[of d1 lg] create_one_frame[OF Inr] by simp
  qed
qed

lemma find_update_primary:
  "find (\<lambda>u. user_id u = uid) us = Some user \<Longrightarrow>
   find (\<lambda>u. user_id u = uid)
     (map (\<lambda>u. if user_id u = uid then u\<lparr> user_primaryOrganizationId := Some oid \<rparr> else u) us)
   = Some (user\<lparr> user_primaryOrganizationId := Some oid \<rparr>)"
  by (induction us) (auto split: if_splits)

lemma find_Some_D: "find P xs = Some x \<Longrightarrow> P x \<and> x \<in> set xs"
  by (induction xs) (auto split: if_splits)

lemma user_update_primary_ok:
  assumes "fault_user_update e = None" and "find (\<lambda>u. user_id u = uid) (users d) = Some user"
  shows "\<exists>d'. user_update_primary e d uid oid = Inr d'
     \<and> find (\<lambda>u. user_id u = uid) (users d') = Some (user\<lparr> user_primaryOrganizationId := Some oid \<rparr>)
     \<and> organizations d' = organizations d \<and> userOrganizationAccess d' = userOrganizationAccess d"
proof -
  from find_Some_D[OF assms(2)] have "list_ex (\<lambda>u. user_id u = uid) (users d)"
    unfolding list_ex_iff by blast
  then show ?thesis
    using assms find_update_primary[OF assms(2), of oid]
    by (simp add: user_update_primary_def)
qed

lemma authenticates_found:
  assumes "authenticates e d req user access"
  shows "find (\<lambda>u. user_id u = user_id user) (users d) = Some user \<and> access = active_access d user
         \<and> user_active user \<and> fault_user_findUnique e = None"
proof -
  from assms obtain uid where f: "user_findUnique e d uid = Inr (Some (user, access))" and "user_active user"
    unfolding authenticates_def by (auto split: option.splits sum.splits)
  then have nf: "fault_user_findUnique e = None"
    and fu: "find (\<lambda>u. user_id u = uid) (users d) = Some user" and acc: "access = active_access d user"
    unfolding user_findUnique_def by (auto split: option.splits)
  from find_Some_D[OF fu] have "user_id user = uid" by simp
  with fu acc nf \<open>user_active user\<close> show ?thesis by simp
qed

lemma self_heal_unfold:
  assumes "user_role user = ''super_admin''"
      and "organization_findMany e d = Inr orgs"
      and "create_access_all e (user_id user) orgs (d, []) = (d1, lg1)"
  shows "self_heal e d user [] =
     (case (if truthy (user_primaryOrganizationId user) then Inr d1
            else (case orgs of
                    [] \<Rightarrow> Inr d1
                  | org0 # _ \<Rightarrow> user_update_primary e d1 (user_id user) (org_id org0))) of
        Inl err \<Rightarrow> (d1, [], [], lg1 @ [Error_GrantAccessFailed (err_message err)])
      | Inr d2 \<Rightarrow> (d2, map org_id orgs, map (temp_access (user_id user)) orgs, lg1))"
  unfolding self_heal_def by (simp add: assms Let_def)

text \<open>The grant when the enumeration and the update succeed.\<close>
lemma self_heal_grant:
  assumes role: "user_role user = ''super_admin''"
      and enum: "fault_organization_findMany e = None"
      and upd: "fault_user_update e = None"
      and found: "find (\<lambda>u. user_id u = user_id user) (users d) = Some user"
  shows "\<exists>d' lg. self_heal e d user [] =
           (d', map org_id (filter org_active (organizations d)),
            map (temp_access (user_id user)) (filter org_active (organizations d)), lg)
         \<and> organizations d' = organizations d
         \<and> find (\<lambda>u. user_id u = user_id user) (users d') =
             Some (if truthy (user_primaryOrganizationId user) then user
                   else (case filter org_active (organizations d) of
                           [] \<Rightarrow> user
                         | org0 # _ \<Rightarrow> user\<lparr> user_primaryOrganizationId := Some (org_id org0) \<rparr>))"
proof -
  let ?orgs = "filter org_active (organizations d)"
  obtain d1 lg1 where c: "create_access_all e (user_id user) ?orgs (d, []) = (d1, lg1)"
    by (cases "create_access_all e (user_id user) ?orgs (d, [])") auto
  from create_access_all_frame[of e "user_id user" ?orgs d "[]"] c
  have fr: "users d1 = users d" "organizations d1 = organizations d" by simp_all
  have fm: "organization_findMany e d = Inr ?orgs" using enum by (simp add: organization_findMany_def)
  show ?thesis
  proof (cases "truthy (user_primaryOrganizationId user) \<or> ?orgs = []")
    case True
    then have "self_heal e d user [] = (d1, map org_id ?orgs, map (temp_access (user_id user)) ?orgs, lg1)"
      unfolding self_heal_unfold[OF role fm c] by auto
    then show ?thesis using fr found True by (auto split: list.splits)
  next
    case False
    then obtain org0 rest where o: "?orgs = org0 # rest" by (cases ?orgs) auto
    from found fr have "find (\<lambda>u. user_id u = user_id user) (users d1) = Some user" by simp
    from user_update_primary_ok[OF upd this, of "org_id org0"]
    obtain d2 where u: "user_update_primary e d1 (user_id user) (org_id org0) = Inr d2"
      and f2: "find (\<lambda>u. user_id u = user_id user) (users d2)
                = Some (user\<lparr> user_primaryOrganizationId := Some (org_id org0) \<rparr>)"
      and o2: "organizations d2 = organizations d1" by blast
    have "self_heal e d user [] = (d2, map org_id ?orgs, map (temp_access (user_id user)) ?orgs, lg1)"
      unfolding self_heal_unfold[OF role fm c] using False by (simp add: o u)
    then show ?thesis using f2 o2 fr False o by simp
  qed
qed

lemma authenticates_same_user:
  assumes "authenticates e d req user access" and "authenticates e d' req user2 access2"
  shows "user_id user2 = user_id user"
proof -
  from assms(1) obtain a dec where a: "authorization req = Some a"
    and dec: "jwt_verify e (replace_first a ''Bearer '' []) = Inr dec"
    and f: "user_findUnique e d (userId dec) = Inr (Some (user, access))"
    unfolding authenticates_def by (auto split: option.splits sum.splits)
  from assms(2) a dec have f2: "user_findUnique e d' (userId dec) = Inr (Some (user2, access2))"
    unfolding authenticates_def by auto
  from f have "find (\<lambda>u. user_id u = userId dec) (users d) = Some user"
    unfolding user_findUnique_def by (auto split: option.splits)
  then have 1: "user_id user = userId dec" using find_Some_D by fastforce
  from f2 have "find (\<lambda>u. user_id u = userId dec) (users d') = Some user2"
    unfolding user_findUnique_def by (auto split: option.splits)
  then have "user_id user2 = userId dec" using find_Some_D by fastforce
  with 1 show ?thesis by simp
qed

text \<open>
  Claim C10. For a super-admin without active memberships and without primary
  organization: whatever context the request attaches carries
  \<open>primaryOrganizationId = None\<close>. When the grant goes through, no header is sent and
  an active organization exists, the request attaches a context whose
  \<open>currentOrganizationId\<close> is the first enumerated organization while the store now
  holds that organization as the identity's primary one; a later request on that store
  is the first to carry it in its context.
\<close>
theorem primary_not_reflected:
  assumes "authenticates e d req user []"
      and "user_role user = ''super_admin''"
      and "\<not> truthy (user_primaryOrganizationId user)"
  shows "(\<forall>ctx d' lg. authMiddleware e d req = (Attached ctx, d', lg) \<longrightarrow> primaryOrganizationId ctx = None)
       \<and> (\<forall>org0 rest. fault_organization_findMany e = None \<and> fault_user_update e = None
              \<and> \<not> truthy (x_organization_id req)
              \<and> filter org_active (organizations d) = org0 # rest \<longrightarrow>
            (\<exists>ctx d' lg. authMiddleware e d req = (Attached ctx, d', lg)
               \<and> primaryOrganizationId ctx = None
               \<and> currentOrganizationId ctx = Some (org_id org0)
               \<and> find (\<lambda>u. user_id u = user_id user) (users d')
                    = Some (user\<lparr> user_primaryOrganizationId := Some (org_id org0) \<rparr>)
               \<and> (\<forall>ctx2 d2 lg2. org_id org0 \<noteq> []
                      \<and> authMiddleware e d' req = (Attached ctx2, d2, lg2) \<longrightarrow>
                    primaryOrganizationId ctx2 = Some (org_id org0))))"
proof (intro conjI allI impI)
  fix ctx d' lg
  assume "authMiddleware e d req = (Attached ctx, d', lg)"
  then have "resolve_context e d req user [] = (Attached ctx, d', lg)"
    using assms(1) authenticates_resolve by simp
  from resolve_context_attached[OF this]
  have "primaryOrganizationId ctx = js_or (user_primaryOrganizationId user) None" by blast
  then show "primaryOrganizationId ctx = None" using assms(3) by (simp add: js_or_def)
next
  fix org0 rest
  let ?orgs = "filter org_active (organizations d)"
  assume a: "fault_organization_findMany e = None \<and> fault_user_update e = None
              \<and> \<not> truthy (x_organization_id req) \<and> ?orgs = org0 # rest"
  from authenticates_found[OF assms(1)]
  have found: "find (\<lambda>u. user_id u = user_id user) (users d) = Some user" by simp
  from a have enum: "fault_organization_findMany e = None" and upd: "fault_user_update e = None"
    and nh: "\<not> truthy (x_organization_id req)" and o: "?orgs = org0 # rest" by simp_all
  from self_heal_grant[OF assms(2) enum upd found]
  obtain d1 lg1 where sh: "self_heal e d user [] =
        (d1, map org_id ?orgs, map (temp_access (user_id user)) ?orgs, lg1)"
    and f1: "find (\<lambda>u. user_id u = user_id user) (users d1) =
             Some (if truthy (user_primaryOrganizationId user) then user
                   else (case ?orgs of
                           [] \<Rightarrow> user
                         | org0 # _ \<Rightarrow> user\<lparr> user_primaryOrganizationId := Some (org_id org0) \<rparr>))"
    by blast
  have sel: "select_current req user (map org_id ?orgs) = Some (org_id org0)"
    using nh assms(3) o by (simp add: select_current_def js_or_def)
  have na: "\<not> no_access (Some (org_id org0)) (map org_id ?orgs)"
    using o by (simp add: no_access_def)
  let ?ctx = "\<lparr> ctx_id = user_id user, ctx_email = user_email user,
                            ctx_role = user_role user, organizationIds = map org_id ?orgs,
                            primaryOrganizationId = js_or (user_primaryOrganizationId user) None,
                            currentOrganizationId = select_current req user (map org_id ?orgs),
                            organizationAccess = map (temp_access (user_id user)) ?orgs \<rparr>"
  have "authMiddleware e d req = (Attached ?ctx, d1, lg1)"
    unfolding authenticates_resolve[OF assms(1)] resolve_context_cases[OF sh]
    using na sel by simp
  moreover have "primaryOrganizationId ?ctx = None" using assms(3) by (simp add: js_or_def)
  moreover have "currentOrganizationId ?ctx = Some (org_id org0)" using sel by simp
  moreover have "find (\<lambda>u. user_id u = user_id user) (users d1)
                    = Some (user\<lparr> user_primaryOrganizationId := Some (org_id org0) \<rparr>)"
    using f1 assms(3) o by simp
  moreover have "\<forall>ctx2 d2 lg2. org_id org0 \<noteq> []
                      \<and> authMiddleware e d1 req = (Attached ctx2, d2, lg2) \<longrightarrow>
                    primaryOrganizationId ctx2 = Some (org_id org0)"
  proof (intro allI impI)
    fix ctx2 d2 lg2
    assume b: "org_id org0 \<noteq> [] \<and> authMiddleware e d1 req = (Attached ctx2, d2, lg2)"
    then obtain user2 access2 where au2: "authenticates e d1 req user2 access2"
      using authMiddleware_attached by blast
    from authenticates_same_user[OF assms(1) au2] authenticates_found[OF au2]
    have "find (\<lambda>u. user_id u = user_id user) (users d1) = Some user2" by simp
    with f1 assms(3) o have u2: "user2 = user\<lparr> user_primaryOrganizationId := Some (org_id org0) \<rparr>"
      by simp
    from b au2 have "resolve_context e d1 req user2 access2 = (Attached ctx2, d2, lg2)"
      using authenticates_resolve by simp
    from resolve_context_attached[OF this]
    have "primaryOrganizationId ctx2 = js_or (user_primaryOrganizationId user2) None" by blast
    then show "primaryOrganizationId ctx2 = Some (org_id org0)"
      using u2 b by (simp add: js_or_def truthy_def)
  qed
  ultimately show "\<exists>ctx d' lg. authMiddleware e d req = (Attached ctx, d', lg)
               \<and> primaryOrganizationId ctx = None
               \<and> currentOrganizationId ctx = Some (org_id org0)
               \<and> find (\<lambda>u. user_id u = user_id user) (users d')
                    = Some (user\<lparr> user_primaryOrganizationId := Some (org_id org0) \<rparr>)
               \<and> (\<forall>ctx2 d2 lg2. org_id org0 \<noteq> []
                      \<and> authMiddleware e d' req = (Attached ctx2, d2, lg2) \<longrightarrow>
                    primaryOrganizationId ctx2 = Some (org_id org0))"
    by blast
qed

lemmas grant_defs = self_heal_def organization_findMany_def userOrganizationAccess_create_def
  has_access_row_def user_update_primary_def truthy_def

lemma authenticates_A: "authenticates scenario_env scenario_db (request_of ''token-A'' org) user_A []"
  by (simp add: scenario_defs lookup_defs)

lemma self_heal_A:
  "self_heal scenario_env scenario_db user_A [] =
     (healed_db, [''O1'', ''O2'', ''O3''],
      map (temp_access ''A'') (filter org_active (organizations scenario_db)), [])"
  by (simp add: grant_defs scenario_defs healed_db_def)

lemma resolve_A:
  "authMiddleware scenario_env scenario_db (request_of ''token-A'' None)
     = (Attached (context_A (Some ''O1'')), healed_db, [])"
  unfolding authenticates_resolve[OF authenticates_A] resolve_context_cases[OF self_heal_A]
  by (simp add: select_current_def js_or_def truthy_def no_access_def request_of_def user_A_def context_A_def)

lemma active_orgs_scenario:
  "filter org_active (organizations scenario_db)
     = org_O1 # [org_O2, \<lparr> org_id = ''O3'', org_name = ''Clinic Three'', org_active = True \<rparr>]"
  by (simp add: scenario_defs)

lemma second_request_A:
  "authMiddleware scenario_env healed_db (request_of ''token-A'' (Some ''O2''))
     = (Attached (context_A_second (Some ''O2'')), healed_db, [])"
  by (simp add: authMiddleware_def resolve_context_def isPublicRoute_def publicRoutes_def user_findUnique_def
        self_heal_def select_current_def js_or_def truthy_def no_access_def
        scenario_defs healed_db_def context_A_second_def Let_def
        active_access_def join_organization_def)

lemma second_request_A_default:
  "authMiddleware scenario_env healed_db (request_of ''token-A'' None)
     = (Attached (context_A_second (Some ''O1'')), healed_db, [])"
  by (simp add: authMiddleware_def resolve_context_def isPublicRoute_def publicRoutes_def user_findUnique_def
        self_heal_def select_current_def js_or_def truthy_def no_access_def
        scenario_defs healed_db_def context_A_second_def Let_def
        active_access_def join_organization_def)

theorem primary_not_reflected_witness:
  "authenticates scenario_env scenario_db (request_of ''token-A'' None) user_A []
   \<and> user_role user_A = ''super_admin''
   \<and> \<not> truthy (user_primaryOrganizationId user_A)
   \<and> fault_organization_findMany scenario_env = None
   \<and> fault_user_update scenario_env = None
   \<and> \<not> truthy (x_organization_id (request_of ''token-A'' None))
   \<and> authMiddleware scenario_env scenario_db (request_of ''token-A'' None)
        = (Attached (context_A (Some ''O1'')), healed_db, [])
   \<and> primaryOrganizationId (context_A (Some ''O1'')) = None
   \<and> currentOrganizationId (context_A (Some ''O1'')) = Some (org_id org_O1)
   \<and> find (\<lambda>u. user_id u = user_id user_A) (users healed_db)
        = Some (user_A\<lparr> user_primaryOrganizationId := Some (org_id org_O1) \<rparr>)
   \<and> org_id org_O1 \<noteq> []
   \<and> authMiddleware scenario_env healed_db (request_of ''token-A'' None)
        = (Attached (context_A_second (Some ''O1'')), healed_db, [])
   \<and> primaryOrganizationId (context_A_second (Some ''O1'')) = Some (org_id org_O1)"
proof -
  have r: "user_role user_A = ''super_admin''" by (simp add: user_A_def)
  have f1: "fault_organization_findMany scenario_env = None"
    and f2: "fault_user_update scenario_env = None" by (simp_all add: scenario_env_def)
  have np: "\<not> truthy (user_primaryOrganizationId user_A)" by (simp add: truthy_def user_A_def)
  have ne: "org_id org_O1 \<noteq> []" by (simp add: org_O1_def)
  have nh: "\<not> truthy (x_organization_id (request_of ''token-A'' None))"
    by (simp add: truthy_def request_of_def)
  note main = primary_not_reflected[OF authenticates_A r np]
  from main resolve_A have c1: "primaryOrganizationId (context_A (Some ''O1'')) = None" by blast
  from main f1 f2 nh active_orgs_scenario
  obtain ctx d' lg where "authMiddleware scenario_env scenario_db (request_of ''token-A'' None) = (Attached ctx, d', lg)"
    and c: "currentOrganizationId ctx = Some (org_id org_O1)"
    and f: "find (\<lambda>u. user_id u = user_id user_A) (users d')
              = Some (user_A\<lparr> user_primaryOrganizationId := Some (org_id org_O1) \<rparr>)"
    and s: "\<forall>ctx2 d2 lg2. org_id org_O1 \<noteq> []
               \<and> authMiddleware scenario_env d' (request_of ''token-A'' None) = (Attached ctx2, d2, lg2) \<longrightarrow>
             primaryOrganizationId ctx2 = Some (org_id org_O1)"
    by blast
  with resolve_A have eq: "ctx = context_A (Some ''O1'')" "d' = healed_db" by simp_all
  from s eq ne second_request_A_default
  have "primaryOrganizationId (context_A_second (Some ''O1'')) = Some (org_id org_O1)" by blast
  with c f c1 eq show ?thesis
    using authenticates_A r f1 f2 resolve_A np nh ne second_request_A_default by blast
qed

section \<open>Failures inside the grant\<close>

lemma unique_violation_message:
  "includes_str (err_message unique_violation) ''Unique constraint''"
  by (simp add: unique_violation_def)

lemma create_error_cases:
  "userOrganizationAccess_create e d uid oid r st = Inl err \<Longrightarrow>
     fault_access_create e oid = Some err \<or> (fault_access_create e oid = None \<and> err = unique_violation)"
  by (auto simp: userOrganizationAccess_create_def split: option.splits if_splits)

lemma create_ok_cases:
  "userOrganizationAccess_create e d uid oid r st = Inr d' \<Longrightarrow> fault_access_create e oid = None"
  by (auto simp: userOrganizationAccess_create_def split: option.splits if_splits)

lemma create_access_all_log:
  "snd (create_access_all e uid orgs (d, lg)) =
     lg @ concat (map (\<lambda>org. case fault_access_create e (org_id org) of
                               None \<Rightarrow> []
                             | Some err \<Rightarrow>
                                 if includes_str (err_message err) ''Unique constraint'' then []
                                 else [Warn_CreateAccessFailed (org_id org) (err_message err)]) orgs)"
proof (induction orgs arbitrary: d lg)
  case Nil
  show ?case by simp
next
  case (Cons org orgs)
  show ?case
  proof (cases "userOrganizationAccess_create e d uid (org_id org) ''admin'' ''active''")
    case (Inl err)
    from create_error_cases[OF Inl] show ?thesis
    proof
      assume "fault_access_create e (org_id org) = Some err"
      then show ?thesis using Inl Cons.IH by simp
    next
      assume "fault_access_create e (org_id org) = None \<and> err = unique_violation"
      then show ?thesis using Inl Cons.IH unique_violation_message by simp
    qed
  next
    case (Inr d1)
    from create_ok_cases[OF Inr] show ?thesis using Inr Cons.IH by simp
  qed
qed

lemma update_primary_fails_iff:
  "(\<exists>err. user_update_primary e d uid oid = Inl err)
     \<longleftrightarrow> (fault_user_update e \<noteq> None \<or> \<not> list_ex (\<lambda>u. user_id u = uid) (users d))"
  by (auto simp: user_update_primary_def split: option.splits)

lemma self_heal_no_grant:
  "\<not> (map av_organizationId access = [] \<and> user_role user = ''super_admin'') \<Longrightarrow>
     self_heal e d user access = (d, map av_organizationId access, access, [])"
  by (auto simp: self_heal_def Let_def)

lemma self_heal_enumeration_fails:
  "user_role user = ''super_admin'' \<Longrightarrow> fault_organization_findMany e = Some err \<Longrightarrow>
     self_heal e d user [] = (d, [], [], [Error_GrantAccessFailed (err_message err)])"
  by (simp add: self_heal_def organization_findMany_def)

lemma self_heal_update_fails:
  assumes "user_role user = ''super_admin''" and "fault_organization_findMany e = None"
      and "fault_user_update e = Some err" and "\<not> truthy (user_primaryOrganizationId user)"
      and "filter org_active (organizations d) \<noteq> []"
  shows "\<exists>d1 lg1. self_heal e d user [] = (d1, [], [], lg1 @ [Error_GrantAccessFailed (err_message err)])"
proof -
  let ?orgs = "filter org_active (organizations d)"
  obtain d1 lg1 where c: "create_access_all e (user_id user) ?orgs (d, []) = (d1, lg1)"
    by (cases "create_access_all e (user_id user) ?orgs (d, [])") auto
  have fm: "organization_findMany e d = Inr ?orgs" using assms(2) by (simp add: organization_findMany_def)
  obtain org0 rest where o: "?orgs = org0 # rest" using assms(5) by (cases ?orgs) auto
  have "user_update_primary e d1 (user_id user) (org_id org0) = Inl err"
    using assms(3) by (simp add: user_update_primary_def)
  then have "self_heal e d user [] = (d1, [], [], lg1 @ [Error_GrantAccessFailed (err_message err)])"
    unfolding self_heal_unfold[OF assms(1) fm c] using assms(4) by (simp add: o)
  then show ?thesis by blast
qed

text \<open>The ids and memberships of the request do not depend on the failures of the inserts.\<close>
lemma self_heal_insert_faults:
  "fst (snd (self_heal (e\<lparr> fault_access_create := f \<rparr>) d user access)) = fst (snd (self_heal e d user access))
   \<and> fst (snd (snd (self_heal (e\<lparr> fault_access_create := f \<rparr>) d user access)))
       = fst (snd (snd (self_heal e d user access)))"
proof (cases "map av_organizationId access = [] \<and> user_role user = ''super_admin''")
  case False
  then show ?thesis by (simp add: self_heal_no_grant)
next
  case True
  then have acc: "access = []" and role: "user_role user = ''super_admin''" by simp_all
  let ?e = "e\<lparr> fault_access_create := f \<rparr>"
  show ?thesis
  proof (cases "fault_organization_findMany e")
    case (Some err)
    then have "fault_organization_findMany ?e = Some err" by simp
    then show ?thesis using Some role acc by (simp add: self_heal_enumeration_fails)
  next
    case None
    let ?orgs = "filter org_active (organizations d)"
    have fm: "organization_findMany e d = Inr ?orgs" "organization_findMany ?e d = Inr ?orgs"
      using None by (simp_all add: organization_findMany_def)
    obtain d1 lg1 where c1: "create_access_all e (user_id user) ?orgs (d, []) = (d1, lg1)"
      by (cases "create_access_all e (user_id user) ?orgs (d, [])") auto
    obtain d2 lg2 where c2: "create_access_all ?e (user_id user) ?orgs (d, []) = (d2, lg2)"
      by (cases "create_access_all ?e (user_id user) ?orgs (d, [])") auto
    from create_access_all_frame[of e "user_id user" ?orgs d "[]"] c1 have u1: "users d1 = users d" by simp
    from create_access_all_frame[of ?e "user_id user" ?orgs d "[]"] c2 have u2: "users d2 = users d" by simp
    show ?thesis
    proof (cases "truthy (user_primaryOrganizationId user) \<or> ?orgs = []")
      case True
      then show ?thesis
        unfolding acc self_heal_unfold[OF role fm(1) c1] self_heal_unfold[OF role fm(2) c2]
        by auto
    next
      case False
      then obtain org0 rest where o: "?orgs = org0 # rest" by (cases ?orgs) auto
      have same: "(\<exists>err. user_update_primary ?e d2 (user_id user) (org_id org0) = Inl err)
                 \<longleftrightarrow> (\<exists>err. user_update_primary e d1 (user_id user) (org_id org0) = Inl err)"
        unfolding update_primary_fails_iff u1 u2 by simp
      show ?thesis
      proof (cases "user_update_primary e d1 (user_id user) (org_id org0)")
        case (Inl err)
        with same obtain err2 where "user_update_primary ?e d2 (user_id user) (org_id org0) = Inl err2"
          by blast
        with Inl False show ?thesis
          unfolding acc self_heal_unfold[OF role fm(1) c1] self_heal_unfold[OF role fm(2) c2]
          by (simp add: o)
      next
        case (Inr d3)
        with same obtain d4 where "user_update_primary ?e d2 (user_id user) (org_id org0) = Inr d4"
          by (cases "user_update_primary ?e d2 (user_id user) (org_id org0)") auto
        with Inr False show ?thesis
          unfolding acc self_heal_unfold[OF role fm(1) c1] self_heal_unfold[OF role fm(2) c2]
          by (simp add: o)
      qed
    qed
  qed
qed

lemma resolve_context_insert_faults:
  "fst (resolve_context (e\<lparr> fault_access_create := f \<rparr>) d req user access)
     = fst (resolve_context e d req user access)"
proof -
  let ?e = "e\<lparr> fault_access_create := f \<rparr>"
  obtain d1 ids1 acc1 lg1 where s1: "self_heal e d user access = (d1, ids1, acc1, lg1)"
    by (cases "self_heal e d user access") auto
  obtain d2 ids2 acc2 lg2 where s2: "self_heal ?e d user access = (d2, ids2, acc2, lg2)"
    by (cases "self_heal ?e d user access") auto
  from self_heal_insert_faults[where e = e and f = f and d = d and user = user and access = access] s1 s2
  have "ids2 = ids1" "acc2 = acc1" by simp_all
  then show ?thesis
    unfolding resolve_context_cases[OF s1] resolve_context_cases[OF s2] by simp
qed

lemma authMiddleware_insert_faults:
  "fst (authMiddleware (e\<lparr> fault_access_create := f \<rparr>) d req) = fst (authMiddleware e d req)"
  unfolding authMiddleware_def
  by (simp add: isPublicRoute_def publicRoutes_def user_findUnique_def Let_def
        resolve_context_insert_faults split: sum.splits option.splits)

text \<open>
  Claim C6, as the code has it. For an authenticated caller, whatever store calls of the
  grant fail: the hook attaches a context or answers 403 from the consistency check,
  never 409 or 500. The failures of the inserts never change the outcome; an insert
  refused by the unique constraint leaves no log line, any other insert error is logged
  as a warning. An error of the enumeration or of the update of the primary organization
  is logged as an error and leaves the ids of the request empty, so that the request is
  answered 403 when the header or the stored primary organization selects an
  organization, and is let through with an empty scope otherwise.
\<close>
theorem self_heal_failures_absorbed:
  assumes "authenticates e d req user access"
  shows "((\<exists>ctx. fst (authMiddleware e d req) = Attached ctx)
          \<or> fst (authMiddleware e d req) = Reply 403 ''forbidden'' ''No access to specified organization'')
       \<and> fst (authMiddleware (e\<lparr> fault_access_create := f \<rparr>) d req) = fst (authMiddleware e d req)
       \<and> snd (create_access_all e uid orgs (d0, lg0)) =
           lg0 @ concat (map (\<lambda>org. case fault_access_create e (org_id org) of
                                       None \<Rightarrow> []
                                     | Some err \<Rightarrow>
                                         if includes_str (err_message err) ''Unique constraint'' then []
                                         else [Warn_CreateAccessFailed (org_id org) (err_message err)]) orgs)
       \<and> (access = [] \<and> user_role user = ''super_admin''
            \<and> (fault_organization_findMany e = Some err
                 \<or> (fault_organization_findMany e = None \<and> fault_user_update e = Some err
                      \<and> \<not> truthy (user_primaryOrganizationId user)
                      \<and> filter org_active (organizations d) \<noteq> []))
          \<longrightarrow> (\<exists>d' lg. authMiddleware e d req =
                   (if truthy (x_organization_id req) \<or> truthy (user_primaryOrganizationId user)
                    then Reply 403 ''forbidden'' ''No access to specified organization''
                    else Attached \<lparr> ctx_id = user_id user, ctx_email = user_email user,
                                    ctx_role = user_role user, organizationIds = [],
                                    primaryOrganizationId = None, currentOrganizationId = None,
                                    organizationAccess = [] \<rparr>, d', lg)
                 \<and> Error_GrantAccessFailed (err_message err) \<in> set lg))"
proof (intro conjI impI)
  obtain d1 ids acc lg1 where sh: "self_heal e d user access = (d1, ids, acc, lg1)"
    by (cases "self_heal e d user access") auto
  show "(\<exists>ctx. fst (authMiddleware e d req) = Attached ctx)
          \<or> fst (authMiddleware e d req) = Reply 403 ''forbidden'' ''No access to specified organization''"
    unfolding authenticates_resolve[OF assms] resolve_context_cases[OF sh] by simp
next
  show "fst (authMiddleware (e\<lparr> fault_access_create := f \<rparr>) d req) = fst (authMiddleware e d req)"
    by (rule authMiddleware_insert_faults)
next
  show "snd (create_access_all e uid orgs (d0, lg0)) =
           lg0 @ concat (map (\<lambda>org. case fault_access_create e (org_id org) of
                                       None \<Rightarrow> []
                                     | Some err \<Rightarrow>
                                         if includes_str (err_message err) ''Unique constraint'' then []
                                         else [Warn_CreateAccessFailed (org_id org) (err_message err)]) orgs)"
    by (rule create_access_all_log)
next
  assume a: "access = [] \<and> user_role user = ''super_admin''
            \<and> (fault_organization_findMany e = Some err
                 \<or> (fault_organization_findMany e = None \<and> fault_user_update e = Some err
                      \<and> \<not> truthy (user_primaryOrganizationId user)
                      \<and> filter org_active (organizations d) \<noteq> []))"
  then have acc: "access = []" and role: "user_role user = ''super_admin''" by simp_all
  from a have "\<exists>d1 lg1. self_heal e d user [] = (d1, [], [], lg1 @ [Error_GrantAccessFailed (err_message err)])"
  proof (elim conjE disjE)
    assume "fault_organization_findMany e = Some err"
    from self_heal_enumeration_fails[OF role this, of d]
    have "self_heal e d user [] = (d, [], [], [] @ [Error_GrantAccessFailed (err_message err)])" by simp
    then show ?thesis by blast
  next
    assume "fault_organization_findMany e = None" "fault_user_update e = Some err"
      "\<not> truthy (user_primaryOrganizationId user)" "filter org_active (organizations d) \<noteq> []"
    from self_heal_update_fails[OF role this] show ?thesis .
  qed
  then obtain d1 lg1 where
    sh: "self_heal e d user access = (d1, [], [], lg1 @ [Error_GrantAccessFailed (err_message err)])"
    using acc by blast
  have sel: "select_current req user [] =
      (if truthy (x_organization_id req) then x_organization_id req
       else if truthy (user_primaryOrganizationId user) then user_primaryOrganizationId user else None)"
    by (simp add: select_current_def js_or_def)
  have na: "no_access (select_current req user []) []
      \<longleftrightarrow> truthy (x_organization_id req) \<or> truthy (user_primaryOrganizationId user)"
    unfolding sel by (auto simp: no_access_def truthy_def split: option.splits)
  show "\<exists>d' lg. authMiddleware e d req =
                   (if truthy (x_organization_id req) \<or> truthy (user_primaryOrganizationId user)
                    then Reply 403 ''forbidden'' ''No access to specified organization''
                    else Attached \<lparr> ctx_id = user_id user, ctx_email = user_email user,
                                    ctx_role = user_role user, organizationIds = [],
                                    primaryOrganizationId = None, currentOrganizationId = None,
                                    organizationAccess = [] \<rparr>, d', lg)
                 \<and> Error_GrantAccessFailed (err_message err) \<in> set lg"
  proof (cases "truthy (x_organization_id req) \<or> truthy (user_primaryOrganizationId user)")
    case True
    then show ?thesis
      unfolding authenticates_resolve[OF assms] resolve_context_cases[OF sh] na by auto
  next
    case False
    then have "select_current req user [] = None" "js_or (user_primaryOrganizationId user) None = None"
      unfolding sel by (simp_all add: js_or_def)
    with False show ?thesis
      unfolding authenticates_resolve[OF assms] resolve_context_cases[OF sh] na by auto
  qed
qed

lemma resolve_A_O2:
  "authMiddleware scenario_env scenario_db (request_of ''token-A'' (Some ''O2''))
     = (Attached (context_A (Some ''O2'')), healed_db, [])"
  unfolding authenticates_resolve[OF authenticates_A] resolve_context_cases[OF self_heal_A]
  by (simp add: select_current_def js_or_def truthy_def no_access_def request_of_def user_A_def context_A_def)

lemma authenticates_A_down:
  "authenticates (scenario_env\<lparr> fault_organization_findMany := Some store_down \<rparr>) scenario_db
     (request_of ''token-A'' org) user_A []"
  by (simp add: scenario_defs lookup_defs)

lemma suspended_conflict:
  "userOrganizationAccess_create scenario_env suspended_db ''A'' ''O1'' ''admin'' ''active''
     = Inl unique_violation"
  by (simp add: userOrganizationAccess_create_def has_access_row_def suspended_db_def scenario_env_def)

lemma suspended_log:
  "snd (snd (authMiddleware scenario_env suspended_db (request_of ''token-A'' None))) = []"
  by (simp add: authMiddleware_def resolve_context_def isPublicRoute_def publicRoutes_def user_findUnique_def
        select_current_def js_or_def no_access_def Let_def active_access_def join_organization_def
        grant_defs scenario_defs suspended_db_def unique_violation_def)

text \<open>
  The same request of \<open>A\<close> is let through when the store works and answered 403 when the
  enumeration fails; and the insert refused for the suspended membership of \<open>O1\<close> leaves
  the log empty.
\<close>

theorem self_heal_failure_rejects:
  "fst (authMiddleware scenario_env scenario_db (request_of ''token-A'' (Some ''O2'')))
      = Attached (context_A (Some ''O2''))
   \<and> fst (authMiddleware (scenario_env\<lparr> fault_organization_findMany := Some store_down \<rparr>) scenario_db
            (request_of ''token-A'' (Some ''O2'')))
      = Reply 403 ''forbidden'' ''No access to specified organization''
   \<and> userOrganizationAccess_create scenario_env suspended_db ''A'' ''O1'' ''admin'' ''active''
      = Inl unique_violation
   \<and> snd (snd (authMiddleware scenario_env suspended_db (request_of ''token-A'' None))) = []"
proof -
  have "fst (authMiddleware (scenario_env\<lparr> fault_organization_findMany := Some store_down \<rparr>) scenario_db
            (request_of ''token-A'' (Some ''O2'')))
      = Reply 403 ''forbidden'' ''No access to specified organization''"
    unfolding authenticates_resolve[OF authenticates_A_down]
    by (simp add: resolve_context_def self_heal_def organization_findMany_def user_A_def
          select_current_def js_or_def truthy_def no_access_def request_of_def)
  then show ?thesis using resolve_A_O2 suspended_conflict suspended_log by simp
qed

theorem self_heal_failures_absorbed_witness:
  "authenticates (scenario_env\<lparr> fault_organization_findMany := Some store_down \<rparr>) scenario_db
     (request_of ''token-A'' (Some ''O2'')) user_A []
   \<and> user_role user_A = ''super_admin''
   \<and> fault_organization_findMany (scenario_env\<lparr> fault_organization_findMany := Some store_down \<rparr>)
       = Some store_down
   \<and> truthy (x_organization_id (request_of ''token-A'' (Some ''O2'')))
   \<and> (\<exists>d' lg. authMiddleware (scenario_env\<lparr> fault_organization_findMany := Some store_down \<rparr>) scenario_db
                  (request_of ''token-A'' (Some ''O2''))
                = (Reply 403 ''forbidden'' ''No access to specified organization'', d', lg)
              \<and> Error_GrantAccessFailed (err_message store_down) \<in> set lg)"
proof -
  let ?e = "scenario_env\<lparr> fault_organization_findMany := Some store_down \<rparr>"
  have r: "user_role user_A = ''super_admin''" by (simp add: user_A_def)
  have f: "fault_organization_findMany ?e = Some store_down" by simp
  have h: "truthy (x_organization_id (request_of ''token-A'' (Some ''O2'')))"
    by (simp add: truthy_def request_of_def)
  note main = self_heal_failures_absorbed[OF authenticates_A_down[of "Some ''O2''"],
      where err = store_down, THEN conjunct2, THEN conjunct2, THEN conjunct2, rule_format]
  from main r f h
  have "\<exists>d' lg. authMiddleware ?e scenario_db (request_of ''token-A'' (Some ''O2''))
                = (Reply 403 ''forbidden'' ''No access to specified organization'', d', lg)
              \<and> Error_GrantAccessFailed (err_message store_down) \<in> set lg" by simp
  then show ?thesis using authenticates_A_down r f h by blast
qed

section \<open>Callers without memberships\<close>









lemma search_A:
  "searchPatients scenario_runtime scenario_patients (context_A (Some ''O1'')) any_patient
     = Bundle (patients scenario_patients)"
  by (simp add: searchPatients_def organization_scope_def context_A_def any_patient_def scenario_patients_def)


section \<open>The claims of a token\<close>

lemma login_token:
  assumes "login e d body = (LoginReply tok u, d')"
  shows "\<exists>row. find (\<lambda>r. user_email r = lr_email body) (users d) = Some row
          \<and> tok = Signed [(''userId'', user_id row), (''email'', user_email row), (''role'', user_role row)]
                     (expiresIn e)"
  using assms unfolding login_def user_findUnique_email_def
  by (auto simp: Let_def split: option.splits sum.splits if_splits)

text \<open>
  Claim C7. The payload handed to the token library at login has exactly the fields
  \<^verbatim>\<open>userId\<close>, \<^verbatim>\<open>email\<close> and \<^verbatim>\<open>role\<close>, with the values of the stored identity, and is the
  same whatever the membership table holds; the payload at refresh has the same three
  fields, from the attached context, and does not depend on the organizations of that
  context.
\<close>
theorem token_claims_exact:
  "(login e d body = (LoginReply tok u, d') \<longrightarrow>
      map fst (token_claims tok) = [''userId'', ''email'', ''role'']
      \<and> (\<exists>row \<in> set (users d). user_email row = lr_email body
            \<and> token_claims tok = [(''userId'', user_id row), (''email'', user_email row),
                                   (''role'', user_role row)])
      \<and> (\<forall>m tok2 u2 d2. login e (d\<lparr> userOrganizationAccess := m \<rparr>) body = (LoginReply tok2 u2, d2)
            \<longrightarrow> tok2 = tok))
   \<and> refresh e ctx = RefreshReply (Signed [(''userId'', ctx_id ctx), (''email'', ctx_email ctx),
                                            (''role'', ctx_role ctx)] (expiresIn e))
   \<and> refresh e (ctx\<lparr> organizationIds := ids, primaryOrganizationId := p,
                      currentOrganizationId := c, organizationAccess := acc \<rparr>) = refresh e ctx"
proof (intro conjI impI)
  assume a: "login e d body = (LoginReply tok u, d')"
  from login_token[OF a] obtain row where
    f: "find (\<lambda>r. user_email r = lr_email body) (users d) = Some row"
    and t: "tok = Signed [(''userId'', user_id row), (''email'', user_email row), (''role'', user_role row)]
                     (expiresIn e)" by blast
  show "map fst (token_claims tok) = [''userId'', ''email'', ''role'']" using t by simp
  from find_Some_D[OF f] t
  show "\<exists>row \<in> set (users d). user_email row = lr_email body
            \<and> token_claims tok = [(''userId'', user_id row), (''email'', user_email row),
                                   (''role'', user_role row)]" by auto
  show "\<forall>m tok2 u2 d2. login e (d\<lparr> userOrganizationAccess := m \<rparr>) body = (LoginReply tok2 u2, d2)
            \<longrightarrow> tok2 = tok"
  proof (intro allI impI)
    fix m tok2 u2 d2
    assume "login e (d\<lparr> userOrganizationAccess := m \<rparr>) body = (LoginReply tok2 u2, d2)"
    from login_token[OF this] f t show "tok2 = tok" by simp
  qed
next
  show "refresh e ctx = RefreshReply (Signed [(''userId'', ctx_id ctx), (''email'', ctx_email ctx),
                                            (''role'', ctx_role ctx)] (expiresIn e))"
    by (simp add: refresh_def)
next
  show "refresh e (ctx\<lparr> organizationIds := ids, primaryOrganizationId := p,
                      currentOrganizationId := c, organizationAccess := acc \<rparr>) = refresh e ctx"
    by (simp add: refresh_def)
qed

lemma login_B_reply: "fst (login scenario_env scenario_db login_B) = LoginReply token_B login_user_B"
  by (simp add: login_def user_findUnique_email_def user_update_lastLogin_def active_access_def
        join_organization_def scenario_defs login_B_def token_B_def login_user_B_def Let_def)

theorem token_claims_exact_witness:
  "login scenario_env scenario_db login_B
     = (LoginReply token_B login_user_B, snd (login scenario_env scenario_db login_B))
   \<and> map fst (token_claims token_B) = [''userId'', ''email'', ''role'']
   \<and> token_claims token_B = [(''userId'', user_id user_B), (''email'', user_email user_B),
                              (''role'', user_role user_B)]
   \<and> fst (login scenario_env (scenario_db\<lparr> userOrganizationAccess := [] \<rparr>) login_B)
       = LoginReply token_B (login_user_B\<lparr> lu_organizations := [] \<rparr>)"
proof -
  have l: "login scenario_env scenario_db login_B
     = (LoginReply token_B login_user_B, snd (login scenario_env scenario_db login_B))"
    using login_B_reply by (metis prod.collapse)
  note main = token_claims_exact[where e = scenario_env and d = scenario_db and body = login_B
      and tok = token_B and u = login_user_B and d' = "snd (login scenario_env scenario_db login_B)",
      THEN conjunct1, rule_format, OF l]
  from main have k: "map fst (token_claims token_B) = [''userId'', ''email'', ''role'']" by blast
  have v: "token_claims token_B = [(''userId'', user_id user_B), (''email'', user_email user_B),
                              (''role'', user_role user_B)]"
    by (simp add: token_B_def user_B_def)
  have "\<exists>tok2. fst (login scenario_env (scenario_db\<lparr> userOrganizationAccess := [] \<rparr>) login_B)
       = LoginReply tok2 (login_user_B\<lparr> lu_organizations := [] \<rparr>)"
    by (simp add: login_def user_findUnique_email_def user_update_lastLogin_def active_access_def
        scenario_defs login_B_def login_user_B_def Let_def)
  then obtain tok2 where l2: "login scenario_env (scenario_db\<lparr> userOrganizationAccess := [] \<rparr>) login_B
       = (LoginReply tok2 (login_user_B\<lparr> lu_organizations := [] \<rparr>),
          snd (login scenario_env (scenario_db\<lparr> userOrganizationAccess := [] \<rparr>) login_B))"
    by (metis prod.collapse)
  with main have "tok2 = token_B" by blast
  with l2 have "fst (login scenario_env (scenario_db\<lparr> userOrganizationAccess := [] \<rparr>) login_B)
       = LoginReply token_B (login_user_B\<lparr> lu_organizations := [] \<rparr>)" by (metis fst_conv)
  with l k v show ?thesis by blast
qed

section \<open>Requests racing through the grant\<close>

lemma create_one_no_fault:
  assumes "fault_access_create e = (\<lambda>_. None)"
  shows "fst (create_access_all e uid [org] (d, [])) =
     (if has_access_row d uid (org_id org) then d
      else d\<lparr> userOrganizationAccess := userOrganizationAccess d @
                 [\<lparr> access_id = cuid e (length (userOrganizationAccess d)), access_userId = uid,
                    access_organizationId = org_id org, access_role = ''admin'',
                    access_status = ''active'' \<rparr>] \<rparr>)"
  by (simp add: userOrganizationAccess_create_def assms)

lemma create_one_props:
  assumes nf: "fault_access_create e = (\<lambda>_. None)"
      and d': "d' = fst (create_access_all e uid [org] (d, []))"
  shows "has_access_row d' uid (org_id org)"
    and "\<And>oid. has_access_row d uid oid \<Longrightarrow> has_access_row d' uid oid"
    and "unique_access d \<Longrightarrow> unique_access d'"
    and "users d' = users d" and "organizations d' = organizations d"
proof -
  note eq = create_one_no_fault[OF nf, of uid org d]
  show "has_access_row d' uid (org_id org)"
    unfolding d' eq by (simp add: has_access_row_def)
  show "\<And>oid. has_access_row d uid oid \<Longrightarrow> has_access_row d' uid oid"
    unfolding d' eq by (simp add: has_access_row_def)
  show "unique_access d \<Longrightarrow> unique_access d'"
    unfolding d' eq by (auto simp: unique_access_def has_access_row_def list_ex_iff)
  show "users d' = users d" and "organizations d' = organizations d"
    unfolding d' using create_access_all_frame[of e uid "[org]" d "[]"] by simp_all
qed

lemma set_update_other: "p \<in> set ps \<Longrightarrow> p \<noteq> ps ! i \<Longrightarrow> p \<in> set (ps[i := q])"
proof -
  assume a: "p \<in> set ps" and n: "p \<noteq> ps ! i"
  then obtain j where j: "j < length ps" "ps ! j = p" by (auto simp: in_set_conv_nth)
  with n have "j \<noteq> i" by auto
  with j have "(ps[i := q]) ! j = p" "j < length (ps[i := q])" by simp_all
  then show ?thesis by (metis nth_mem)
qed

lemma covered_step:
  assumes c: "covered d0 uid d ps" and i: "i < length ps"
      and mono: "\<And>oid. has_access_row d uid oid \<Longrightarrow> has_access_row d' uid oid"
      and pend: "\<And>org. org \<in> set (organizations d0) \<Longrightarrow> org_active org \<Longrightarrow> org_id org \<in> pending (ps ! i)
                   \<Longrightarrow> org_id org \<in> pending q \<or> has_access_row d' uid (org_id org)"
  shows "covered d0 uid d' (ps[i := q])"
  unfolding covered_def
proof (intro ballI impI)
  fix org assume o: "org \<in> set (organizations d0)" "org_active org"
  with c consider "has_access_row d uid (org_id org)" | p where "p \<in> set ps" "org_id org \<in> pending p"
    unfolding covered_def by blast
  then show "has_access_row d' uid (org_id org) \<or> (\<exists>p \<in> set (ps[i := q]). org_id org \<in> pending p)"
  proof cases
    case 1
    then show ?thesis using mono by blast
  next
    case 2
    show ?thesis
    proof (cases "p = ps ! i")
      case True
      with 2 pend[OF o] have "org_id org \<in> pending q \<or> has_access_row d' uid (org_id org)" by blast
      moreover have "q \<in> set (ps[i := q])" using i by (simp add: set_update_memI)
      ultimately show ?thesis by blast
    next
      case False
      with 2 have "p \<in> set (ps[i := q])" using set_update_other by metis
      with 2 show ?thesis by blast
    qed
  qed
qed

lemma proc_for_step:
  "\<forall>p \<in> set ps. proc_for uid p \<Longrightarrow> proc_for uid q \<Longrightarrow> \<forall>p \<in> set (ps[i := q]). proc_for uid p"
  using set_update_subset_insert[of ps i q] by auto

lemma super_admin_stored_update:
  assumes "super_admin_stored d uid" and "user_update_primary e d uid' oid = Inr d'"
  shows "super_admin_stored d' uid \<and> organizations d' = organizations d
         \<and> userOrganizationAccess d' = userOrganizationAccess d"
proof -
  from assms(2) have d': "d' = d\<lparr> users := map (\<lambda>u. if user_id u = uid'
                                          then u\<lparr> user_primaryOrganizationId := Some oid \<rparr> else u)
                                  (users d) \<rparr>"
    by (auto simp: user_update_primary_def split: option.splits if_splits)
  have "\<And>us. (case find (\<lambda>u. user_id u = uid) us of None \<Rightarrow> False
                 | Some u \<Rightarrow> user_role u = ''super_admin'' \<and> user_active u)
         \<Longrightarrow> (case find (\<lambda>u. user_id u = uid)
                      (map (\<lambda>u. if user_id u = uid' then u\<lparr> user_primaryOrganizationId := Some oid \<rparr> else u) us) of
                 None \<Rightarrow> False | Some u \<Rightarrow> user_role u = ''super_admin'' \<and> user_active u)"
  proof -
    fix us show "(case find (\<lambda>u. user_id u = uid) us of None \<Rightarrow> False
                 | Some u \<Rightarrow> user_role u = ''super_admin'' \<and> user_active u)
         \<Longrightarrow> (case find (\<lambda>u. user_id u = uid)
                      (map (\<lambda>u. if user_id u = uid' then u\<lparr> user_primaryOrganizationId := Some oid \<rparr> else u) us) of
                 None \<Rightarrow> False | Some u \<Rightarrow> user_role u = ''super_admin'' \<and> user_active u)"
      by (induction us) (auto split: if_splits)
  qed
  then show ?thesis using assms(1) unfolding d' super_admin_stored_def by simp
qed


lemma active_access_rows: "user_id u = uid \<Longrightarrow> active_rows d uid = [] \<Longrightarrow> active_access d u = []"
  by (simp add: active_access_def active_rows_def)

lemma grant_inv_step:
  assumes nf: "fault_user_findUnique e = None" "fault_organization_findMany e = None"
              "fault_access_create e = (\<lambda>_. None)"
      and inv: "grant_inv d0 uid (d, ps)"
  shows "grant_inv d0 uid (sched_step e uid (d, ps) i)"
proof (cases "i < length ps")
  case False
  then show ?thesis using inv by (simp add: sched_step_def)
next
  case True
  from inv have orgs: "organizations d = organizations d0" and uq: "unique_access d"
    and sa: "super_admin_stored d uid" and pf: "\<forall>p \<in> set ps. proc_for uid p"
    and cov: "covered d0 uid d ps \<or> (active_rows d uid = [] \<and> ps \<noteq> [] \<and> (\<forall>p \<in> set ps. p = P_lookup))"
    unfolding grant_inv_def by simp_all
  have mem: "ps ! i \<in> set ps" using True by simp
  have not_lookup: "ps ! i \<noteq> P_lookup \<Longrightarrow> covered d0 uid d ps" using cov mem by blast
  show ?thesis
  proof (cases "ps ! i")
    case P_lookup
    from sa obtain u where fu: "find (\<lambda>u. user_id u = uid) (users d) = Some u"
      and ru: "user_role u = ''super_admin''" and au: "user_active u"
      unfolding super_admin_stored_def by (auto split: option.splits)
    from find_Some_D[OF fu] have uid: "user_id u = uid" by simp
    let ?q = "if map av_organizationId (active_access d u) = [] then P_enumerate u else P_done"
    have st: "sched_step e uid (d, ps) i = (d, ps[i := ?q])"
      using True P_lookup fu ru au nf(1) by (simp add: sched_step_def user_findUnique_def)
    have pq: "proc_for uid ?q" using uid by simp
    have "covered d0 uid d (ps[i := ?q])"
      using cov
    proof
      assume "covered d0 uid d ps"
      then show ?thesis
        by (rule covered_step[OF _ True]) (simp_all add: P_lookup)
    next
      assume a: "active_rows d uid = [] \<and> ps \<noteq> [] \<and> (\<forall>p \<in> set ps. p = P_lookup)"
      then have "?q = P_enumerate u" using active_access_rows[OF uid] by simp
      moreover have "?q \<in> set (ps[i := ?q])" using True by (simp add: set_update_memI)
      ultimately have "\<exists>p \<in> set (ps[i := ?q]). \<forall>oid. oid \<in> pending p"
        by (metis UNIV_I pending.simps(2))
      then show ?thesis unfolding covered_def by blast
    qed
    then show ?thesis unfolding st grant_inv_def
      using orgs uq sa proc_for_step[OF pf pq] by simp
  next
    case (P_enumerate u)
    let ?orgs = "filter org_active (organizations d)"
    let ?q = "P_create u ?orgs ?orgs"
    have st: "sched_step e uid (d, ps) i = (d, ps[i := ?q])"
      using True P_enumerate nf(2) by (simp add: sched_step_def organization_findMany_def)
    have pq: "proc_for uid ?q" using pf mem P_enumerate by auto
    have c: "covered d0 uid d ps" using not_lookup P_enumerate by simp
    have "covered d0 uid d (ps[i := ?q])"
      by (rule covered_step[OF c True]) (auto simp: orgs)
    then show ?thesis unfolding st grant_inv_def
      using orgs uq sa proc_for_step[OF pf pq] by simp
  next
    case (P_create u allOrganizations rest)
    have uid: "user_id u = uid" using pf mem P_create by auto
    have c: "covered d0 uid d ps" using not_lookup P_create by simp
    show ?thesis
    proof (cases rest)
      case Nil
      let ?x = "if truthy (user_primaryOrganizationId u) then Inr d
            else (case allOrganizations of
                    [] \<Rightarrow> Inr d
                  | org0 # _ \<Rightarrow> user_update_primary e d (user_id u) (org_id org0))"
      obtain d' where st: "sched_step e uid (d, ps) i = (d', ps[i := P_done])"
        and d': "d' = d \<or> ?x = Inr d'"
        using True P_create Nil by (cases ?x) (simp_all add: sched_step_def)
      have fr: "super_admin_stored d' uid \<and> organizations d' = organizations d
         \<and> userOrganizationAccess d' = userOrganizationAccess d"
        using d'
      proof
        assume "d' = d" then show ?thesis using sa by simp
      next
        assume x: "?x = Inr d'"
        show ?thesis
        proof (cases "truthy (user_primaryOrganizationId u) \<or> allOrganizations = []")
          case True
          with x have "d' = d" by (auto split: if_splits)
          then show ?thesis using sa by simp
        next
          case False
          then obtain org0 r where "allOrganizations = org0 # r" by (cases allOrganizations) auto
          with x False have "user_update_primary e d (user_id u) (org_id org0) = Inr d'" by simp
          from super_admin_stored_update[OF sa this] show ?thesis .
        qed
      qed
      then have same: "\<And>oid. has_access_row d' uid oid = has_access_row d uid oid"
        and uq': "unique_access d'"
        using uq by (simp_all add: has_access_row_def unique_access_def)
      have "covered d0 uid d' (ps[i := P_done])"
        by (rule covered_step[OF c True]) (simp_all add: same P_create Nil)
      then show ?thesis unfolding st grant_inv_def
        using orgs fr uq' proc_for_step[OF pf, of P_done] by simp
    next
      case (Cons org rest')
      let ?d' = "fst (create_access_all e (user_id u) [org] (d, []))"
      let ?q = "P_create u allOrganizations rest'"
      have st: "sched_step e uid (d, ps) i = (?d', ps[i := ?q])"
        using True P_create Cons by (simp add: sched_step_def)
      note props = create_one_props[OF nf(3) refl, where uid = "user_id u" and org = org and d = d, unfolded uid]
      have pq: "proc_for uid ?q" using uid by simp
      have sa': "super_admin_stored ?d' uid"
        using sa props(4) unfolding super_admin_stored_def uid by simp
      have "covered d0 uid ?d' (ps[i := ?q])"
      proof (rule covered_step[OF c True])
        fix oid assume "has_access_row d uid oid"
        then show "has_access_row ?d' uid oid" unfolding uid by (rule props(2))
      next
        fix x assume "x \<in> set (organizations d0)" "org_active x" "org_id x \<in> pending (ps ! i)"
        then have "org_id x = org_id org \<or> org_id x \<in> org_id ` set rest'"
          by (auto simp: P_create Cons)
        then show "org_id x \<in> pending ?q \<or> has_access_row ?d' uid (org_id x)"
          using props(1) unfolding uid by auto
      qed
      then show ?thesis unfolding st grant_inv_def
        using orgs props(3)[OF uq] props(5) sa' proc_for_step[OF pf pq] unfolding uid by simp
    qed
  next
    case P_done
    have st: "sched_step e uid (d, ps) i = (d, ps)"
      using True P_done by (simp add: sched_step_def) (metis list_update_id)
    show ?thesis unfolding st by (rule inv)
  qed
qed

lemma sched_step_length: "length (snd (sched_step e uid (d, ps) i)) = length ps"
  by (simp add: sched_step_def split: prod.splits)

lemma run_inv:
  assumes nf: "fault_user_findUnique e = None" "fault_organization_findMany e = None"
              "fault_access_create e = (\<lambda>_. None)"
  shows "grant_inv d0 uid cfg \<Longrightarrow> grant_inv d0 uid (run e uid sched cfg)"
  unfolding run_def
proof (induction sched arbitrary: cfg)
  case Nil
  then show ?case by simp
next
  case (Cons i sched)
  obtain d ps where cfg: "cfg = (d, ps)" by (cases cfg)
  from Cons.prems have "grant_inv d0 uid (sched_step e uid cfg i)"
    unfolding cfg by (rule grant_inv_step[OF nf])
  from Cons.IH[OF this] show ?case by simp
qed

lemma run_length: "length (snd (run e uid sched cfg)) = length (snd cfg)"
  unfolding run_def
proof (induction sched arbitrary: cfg)
  case Nil
  show ?case by simp
next
  case (Cons i sched)
  obtain d ps where cfg: "cfg = (d, ps)" by (cases cfg)
  show ?case using Cons.IH[of "sched_step e uid cfg i"] sched_step_length[of e uid d ps i]
    by (simp add: cfg)
qed

lemma one_row:
  "distinct (map (\<lambda>a. (access_userId a, access_organizationId a)) rows) \<Longrightarrow>
   list_ex (\<lambda>a. access_userId a = uid \<and> access_organizationId a = oid) rows \<Longrightarrow>
   length (filter (\<lambda>a. access_userId a = uid \<and> access_organizationId a = oid) rows) = 1"
proof (induction rows)
  case Nil
  then show ?case by simp
next
  case (Cons a rows)
  show ?case
  proof (cases "access_userId a = uid \<and> access_organizationId a = oid")
    case True
    with Cons.prems(1) have "(uid, oid) \<notin> (\<lambda>a. (access_userId a, access_organizationId a)) ` set rows"
      by simp
    then have "\<forall>b \<in> set rows. \<not> (access_userId b = uid \<and> access_organizationId b = oid)"
      by (auto simp: image_iff)
    then have "filter (\<lambda>a. access_userId a = uid \<and> access_organizationId a = oid) rows = []"
      by (simp add: filter_empty_conv)
    with True show ?thesis by simp
  next
    case False
    with Cons show ?thesis by simp
  qed
qed

text \<open>A request that runs alone performs the grant of \<open>self_heal\<close>.\<close>

lemma create_access_all_store:
  "fst (create_access_all e uid orgs (d, lg)) = fst (create_access_all e uid orgs (d, []))"
proof (induction orgs arbitrary: d lg)
  case Nil
  show ?case by simp
next
  case (Cons org orgs)
  show ?case
    using Cons.IH[of _ "lg @ [Warn_CreateAccessFailed (org_id org) _]"]
          Cons.IH[of _ "[Warn_CreateAccessFailed (org_id org) _]"] Cons.IH[of _ lg]
    by (simp split: sum.splits)
qed

lemma create_access_all_Cons:
  "fst (create_access_all e uid (org # orgs) (d, [])) =
     fst (create_access_all e uid orgs (fst (create_access_all e uid [org] (d, [])), []))"
  using create_access_all_store[of e uid orgs _ "[Warn_CreateAccessFailed (org_id org) _]"]
  by (simp split: sum.splits)

lemma run_append: "run e uid (s1 @ s2) cfg = run e uid s2 (run e uid s1 cfg)"
  by (simp add: run_def)

lemma run_alone_create:
  "run e uid (replicate (length rest) 0) (d, [P_create u allOrganizations rest])
     = (fst (create_access_all e (user_id u) rest (d, [])), [P_create u allOrganizations []])"
proof (induction rest arbitrary: d)
  case Nil
  show ?case by (simp add: run_def)
next
  case (Cons org rest)
  have "run e uid (replicate (length (org # rest)) 0) (d, [P_create u allOrganizations (org # rest)])
      = run e uid (replicate (length rest) 0)
          (fst (create_access_all e (user_id u) [org] (d, [])), [P_create u allOrganizations rest])"
    by (simp add: run_def sched_step_def)
  then show ?case using Cons.IH create_access_all_Cons[of e "user_id u" org rest d] by simp
qed

lemma run_alone:
  assumes "user_findUnique e d uid = Inr (Some (user, access))" and "user_active user"
  shows "\<exists>k. run e uid (replicate k 0) (d, [P_lookup]) = (fst (self_heal e d user access), [P_done])"
proof (cases "map av_organizationId access = [] \<and> user_role user = ''super_admin''")
  case False
  then have "run e uid (replicate 1 0) (d, [P_lookup]) = (fst (self_heal e d user access), [P_done])"
    using assms by (auto simp: run_def sched_step_def self_heal_no_grant)
  then show ?thesis by blast
next
  case True
  then have acc: "access = []" and role: "user_role user = ''super_admin''" by simp_all
  have s1: "run e uid [0] (d, [P_lookup]) = (d, [P_enumerate user])"
    using assms True by (simp add: run_def sched_step_def)
  show ?thesis
  proof (cases "organization_findMany e d")
    case (Inl err)
    then have "self_heal e d user access = (d, [], [], [Error_GrantAccessFailed (err_message err)])"
      using acc role by (simp add: self_heal_def)
    moreover have "run e uid (replicate 2 0) (d, [P_lookup]) = (d, [P_done])"
      using assms True Inl by (simp add: run_def sched_step_def numeral_2_eq_2)
    ultimately show ?thesis by (metis fst_conv)
  next
    case (Inr orgs)
    obtain d1 lg1 where c: "create_access_all e (user_id user) orgs (d, []) = (d1, lg1)"
      by (cases "create_access_all e (user_id user) orgs (d, [])") auto
    have s2: "run e uid [0] (d, [P_enumerate user]) = (d, [P_create user orgs orgs])"
      using Inr by (simp add: run_def sched_step_def)
    have s3: "run e uid (replicate (length orgs) 0) (d, [P_create user orgs orgs])
                = (d1, [P_create user orgs []])"
      using run_alone_create[of e uid orgs d user orgs] c by simp
    have s4: "run e uid [0] (d1, [P_create user orgs []]) = (fst (self_heal e d user []), [P_done])"
      unfolding self_heal_unfold[OF role Inr c]
      by (simp add: run_def sched_step_def split: sum.splits list.splits)
    have "run e uid (([0] @ [0]) @ replicate (length orgs) 0 @ [0]) (d, [P_lookup])
            = (fst (self_heal e d user []), [P_done])"
      unfolding run_append s1 s2 s3 s4 by simp
    moreover have "([0] @ [0]) @ replicate (length orgs) 0 @ [0] = replicate (length orgs + 3) (0::nat)"
      by (simp add: replicate_append_same numeral_3_eq_3)
    ultimately show ?thesis using acc by metis
  qed
qed

text \<open>Every request finishes: each of its turns is one store call, and it has at most
  three more of them than there are active organizations.\<close>

lemma update_primary_organizations:
  "user_update_primary e d uid oid = Inr d' \<Longrightarrow> organizations d' = organizations d"
  by (auto simp: user_update_primary_def split: option.splits if_splits)

lemma proc_step_progress:
  assumes "proc_step e uid d p = (d', p')"
  shows "organizations d' = organizations d
       \<and> steps_left (length (filter org_active (organizations d))) p'
           \<le> steps_left (length (filter org_active (organizations d))) p - 1"
proof (cases p)
  case P_lookup
  then show ?thesis using assms
    by (auto split: sum.splits option.splits if_splits)
next
  case (P_enumerate u)
  then show ?thesis using assms
    by (auto simp: organization_findMany_def split: sum.splits option.splits)
next
  case (P_create u allOrganizations rest)
  show ?thesis
  proof (cases rest)
    case Nil
    then show ?thesis using assms P_create
      by (auto simp: update_primary_organizations split: sum.splits if_splits list.splits)
  next
    case (Cons org rest')
    then show ?thesis using assms P_create
        create_access_all_frame[of e "user_id u" "[org]" d "[]"] by auto
  qed
next
  case P_done
  then show ?thesis using assms by auto
qed

lemma sched_step_progress:
  assumes "sched_step e uid (d, ps) i = (d', ps')"
  shows "organizations d' = organizations d \<and> length ps' = length ps
       \<and> (\<forall>j < length ps. steps_left (length (filter org_active (organizations d))) (ps' ! j)
             \<le> steps_left (length (filter org_active (organizations d))) (ps ! j) - (if j = i then 1 else 0))"
proof (cases "i < length ps")
  case False
  then show ?thesis using assms by (auto simp: sched_step_def)
next
  case True
  obtain d1 p1 where st: "proc_step e uid d (ps ! i) = (d1, p1)" by (cases "proc_step e uid d (ps ! i)")
  with True assms have eq: "d' = d1" "ps' = ps[i := p1]" by (simp_all add: sched_step_def)
  from proc_step_progress[OF st] show ?thesis unfolding eq
    by (auto simp: nth_list_update)
qed

lemma run_progress:
  assumes "run e uid sched (d, ps) = (d', ps')"
  shows "organizations d' = organizations d \<and> length ps' = length ps
       \<and> (\<forall>j < length ps. steps_left (length (filter org_active (organizations d))) (ps' ! j)
             \<le> steps_left (length (filter org_active (organizations d))) (ps ! j) - count_list sched j)"
  using assms
proof (induction sched arbitrary: d ps)
  case Nil
  then show ?case by (simp add: run_def)
next
  case (Cons i sched)
  obtain d1 ps1 where st: "sched_step e uid (d, ps) i = (d1, ps1)" by (cases "sched_step e uid (d, ps) i")
  with Cons.prems have r: "run e uid sched (d1, ps1) = (d', ps')" by (simp add: run_def)
  from sched_step_progress[OF st] have o1: "organizations d1 = organizations d"
    and l1: "length ps1 = length ps"
    and s1: "\<forall>j < length ps. steps_left (length (filter org_active (organizations d))) (ps1 ! j)
             \<le> steps_left (length (filter org_active (organizations d))) (ps ! j) - (if j = i then 1 else 0)"
    by simp_all
  from Cons.IH[OF r] have o2: "organizations d' = organizations d1" and l2: "length ps' = length ps1"
    and s2: "\<forall>j < length ps1. steps_left (length (filter org_active (organizations d1))) (ps' ! j)
             \<le> steps_left (length (filter org_active (organizations d1))) (ps1 ! j) - count_list sched j"
    by simp_all
  show ?case
  proof (intro conjI allI impI)
    show "organizations d' = organizations d" using o1 o2 by simp
    show "length ps' = length ps" using l1 l2 by simp
    fix j assume j: "j < length ps"
    let ?N = "length (filter org_active (organizations d))"
    from s1 j have a: "steps_left ?N (ps1 ! j) \<le> steps_left ?N (ps ! j) - (if j = i then 1 else 0)" by simp
    from s2 j l1 o1 have b: "steps_left ?N (ps' ! j) \<le> steps_left ?N (ps1 ! j) - count_list sched j" by simp
    from a b show "steps_left ?N (ps' ! j) \<le> steps_left ?N (ps ! j) - count_list (i # sched) j"
      by auto
  qed
qed

lemma steps_left_0: "steps_left N p = 0 \<longleftrightarrow> p = P_done"
  by (cases p) auto

lemma run_completes:
  assumes "\<forall>i < n. length (filter org_active (organizations d)) + 3 \<le> count_list sched i"
  shows "snd (run e uid sched (d, replicate n P_lookup)) = replicate n P_done"
proof -
  obtain d' ps' where r: "run e uid sched (d, replicate n P_lookup) = (d', ps')"
    by (cases "run e uid sched (d, replicate n P_lookup)")
  let ?N = "length (filter org_active (organizations d))"
  from run_progress[OF r] have l: "length ps' = n"
    and s: "\<forall>j < n. steps_left ?N (ps' ! j) \<le> steps_left ?N (replicate n P_lookup ! j) - count_list sched j"
    by simp_all
  have "\<forall>j < n. ps' ! j = P_done"
  proof (intro allI impI)
    fix j assume j: "j < n"
    with s have "steps_left ?N (ps' ! j) \<le> (?N + 3) - count_list sched j" by simp
    with assms j have "steps_left ?N (ps' ! j) = 0" by auto
    then show "ps' ! j = P_done" by (simp add: steps_left_0)
  qed
  with l have "ps' = replicate n P_done" by (simp add: list_eq_iff_nth_eq)
  with r show ?thesis by simp
qed

text \<open>
  Claim C8. Any number of requests of the same super-admin start together on a store
  that satisfies the unique constraint and holds no active membership of the user; they
  interleave in any order at their store calls, and no store call fails except an insert
  on the unique constraint. Every schedule that gives each request three turns more
  than there are active organizations brings all of them to their end; and whenever all
  of them are done, the membership table still satisfies the constraint and holds
  exactly one row of the user for each active organization.
\<close>
theorem concurrent_grant_one_row:
  assumes "fault_user_findUnique e = None" and "fault_organization_findMany e = None"
      and "fault_access_create e = (\<lambda>_. None)"
      and "unique_access d" and "super_admin_stored d uid" and "active_rows d uid = []"
      and "0 < n"
  shows "((\<forall>i < n. length (filter org_active (organizations d)) + 3 \<le> count_list sched i)
            \<longrightarrow> snd (run e uid sched (d, replicate n P_lookup)) = replicate n P_done)
       \<and> (snd (run e uid sched (d, replicate n P_lookup)) = replicate n P_done
            \<longrightarrow> unique_access (fst (run e uid sched (d, replicate n P_lookup)))
              \<and> (\<forall>org \<in> set (organizations d). org_active org \<longrightarrow>
                    length (access_rows (fst (run e uid sched (d, replicate n P_lookup))) uid (org_id org)) = 1))"
proof (rule conjI; rule impI)
  assume "\<forall>i < n. length (filter org_active (organizations d)) + 3 \<le> count_list sched i"
  then show "snd (run e uid sched (d, replicate n P_lookup)) = replicate n P_done"
    by (rule run_completes)
next
  let ?d' = "fst (run e uid sched (d, replicate n P_lookup))"
  assume fin: "snd (run e uid sched (d, replicate n P_lookup)) = replicate n P_done"
  have "grant_inv d uid (d, replicate n P_lookup)"
    unfolding grant_inv_def using assms(4,5,6,7) by simp
  from run_inv[OF assms(1,2,3) this, of sched] fin
  have inv: "grant_inv d uid (?d', replicate n P_done)" by (metis prod.collapse)
  then have uq: "unique_access ?d'" unfolding grant_inv_def by simp
  have "P_done \<in> set (replicate n P_done)" using assms(7) by simp
  then have "\<not> (\<forall>p \<in> set (replicate n P_done). p = P_lookup)" by (metis proc.distinct(5))
  with inv have "covered d uid ?d' (replicate n P_done)" unfolding grant_inv_def by auto
  then have all: "\<forall>org \<in> set (organizations d). org_active org \<longrightarrow> has_access_row ?d' uid (org_id org)"
    unfolding covered_def by auto
  show "unique_access ?d'
              \<and> (\<forall>org \<in> set (organizations d). org_active org \<longrightarrow>
                    length (access_rows ?d' uid (org_id org)) = 1)"
  proof (intro conjI ballI impI)
    show "unique_access ?d'" by (rule uq)
  next
    fix org assume "org \<in> set (organizations d)" "org_active org"
    with all have "has_access_row ?d' uid (org_id org)" by blast
    then show "length (access_rows ?d' uid (org_id org)) = 1"
      using uq unfolding access_rows_def unique_access_def has_access_row_def by (rule one_row[rotated])
  qed
qed

lemma race_small:
  "run scenario_env ''A'' [0, 1, 0, 1, 0, 1, 0, 1] (small_db, replicate 2 P_lookup)
     = (small_db_healed, replicate 2 P_done)"
  by (simp add: run_def sched_step_def numeral_2_eq_2 user_findUnique_def active_access_def
        organization_findMany_def userOrganizationAccess_create_def has_access_row_def
        user_update_primary_def truthy_def unique_violation_def
        small_db_def small_db_healed_def scenario_env_def user_A_def org_O1_def)

theorem concurrent_grant_one_row_witness:
  "fault_user_findUnique scenario_env = None \<and> fault_organization_findMany scenario_env = None
   \<and> fault_access_create scenario_env = (\<lambda>_. None)
   \<and> unique_access small_db \<and> super_admin_stored small_db ''A'' \<and> active_rows small_db ''A'' = []
   \<and> (0::nat) < 2
   \<and> length (filter org_active (organizations small_db)) + 3 = 4
   \<and> count_list [0, 1, 0, 1, 0, 1, 0, 1] (0::nat) = 4 \<and> count_list [0, 1, 0, 1, 0, 1, 0, 1] (1::nat) = 4
   \<and> run scenario_env ''A'' [0, 1, 0, 1, 0, 1, 0, 1] (small_db, replicate 2 P_lookup)
        = (small_db_healed, replicate 2 P_done)
   \<and> org_O1 \<in> set (organizations small_db) \<and> org_active org_O1
   \<and> unique_access small_db_healed
   \<and> length (access_rows small_db_healed ''A'' (org_id org_O1)) = 1"
proof -
  let ?sched = "[0, 1, 0, 1, 0, 1, 0, 1] :: nat list"
  have f: "fault_user_findUnique scenario_env = None" "fault_organization_findMany scenario_env = None"
    "fault_access_create scenario_env = (\<lambda>_. None)" by (simp_all add: scenario_env_def)
  have s: "unique_access small_db" "super_admin_stored small_db ''A''" "active_rows small_db ''A'' = []"
    by (simp_all add: unique_access_def super_admin_stored_def active_rows_def small_db_def user_A_def)
  have n: "(0::nat) < 2" by simp
  have o: "org_O1 \<in> set (organizations small_db)" "org_active org_O1"
    by (simp_all add: small_db_def org_O1_def)
  have k: "length (filter org_active (organizations small_db)) + 3 = 4"
    by (simp add: small_db_def org_O1_def)
  have c: "count_list ?sched 0 = 4" "count_list ?sched 1 = 4" by simp_all
  have fair: "\<forall>i < 2. length (filter org_active (organizations small_db)) + 3 \<le> count_list ?sched i"
  proof (intro allI impI)
    fix i :: nat assume "i < 2"
    then have "i = 0 \<or> i = 1" by auto
    then show "length (filter org_active (organizations small_db)) + 3 \<le> count_list ?sched i"
      using k c by auto
  qed
  note main = concurrent_grant_one_row[OF f s n, of ?sched]
  from main fair have fin: "snd (run scenario_env ''A'' ?sched (small_db, replicate 2 P_lookup))
      = replicate 2 P_done" by blast
  from fin main o
  have "unique_access (fst (run scenario_env ''A'' ?sched (small_db, replicate 2 P_lookup)))"
    and "length (access_rows (fst (run scenario_env ''A'' ?sched (small_db, replicate 2 P_lookup)))
            ''A'' (org_id org_O1)) = 1" by blast+
  then have "unique_access small_db_healed"
    and "length (access_rows small_db_healed ''A'' (org_id org_O1)) = 1"
    unfolding race_small by simp_all
  then show ?thesis using f s n k c race_small o by blast
qed

section \<open>The grant, whether or not the store fails\<close>

lemma self_heal_grant_skip:
  assumes role: "user_role user = ''super_admin''"
      and enum: "fault_organization_findMany e = None"
      and skip: "truthy (user_primaryOrganizationId user) \<or> filter org_active (organizations d) = []"
      and found: "find (\<lambda>u. user_id u = user_id user) (users d) = Some user"
  shows "\<exists>d' lg. self_heal e d user [] =
           (d', map org_id (filter org_active (organizations d)),
            map (temp_access (user_id user)) (filter org_active (organizations d)), lg)
         \<and> find (\<lambda>u. user_id u = user_id user) (users d') = Some user"
proof -
  let ?orgs = "filter org_active (organizations d)"
  obtain d1 lg1 where c: "create_access_all e (user_id user) ?orgs (d, []) = (d1, lg1)"
    by (cases "create_access_all e (user_id user) ?orgs (d, [])") auto
  from create_access_all_frame[of e "user_id user" ?orgs d "[]"] c
  have fr: "users d1 = users d" by simp
  have fm: "organization_findMany e d = Inr ?orgs" using enum by (simp add: organization_findMany_def)
  from skip have "self_heal e d user [] = (d1, map org_id ?orgs, map (temp_access (user_id user)) ?orgs, lg1)"
    unfolding self_heal_unfold[OF role fm c] by auto
  then show ?thesis using fr found by simp
qed

text \<open>
  Claim C2, as the code has it. For a super-admin whose lookup returned no active
  membership: when the enumeration succeeds and the update of the primary organization
  does not fail (or is not needed), the \<open>organizationIds\<close> of the request, and of the
  attached context, are the ids of the organizations with \<open>active = true\<close>, in the order
  of the enumeration, and an identity whose \<open>primaryOrganizationId\<close> was unset has it
  set in the store to the first enumerated organization (inserts may fail). When the
  enumeration or the update fails, the \<open>organizationIds\<close> of the request stay empty and
  the stored identity is unchanged.
\<close>
theorem super_admin_self_heal:
  assumes "authenticates e d req user []"
      and "user_role user = ''super_admin''"
      and "authMiddleware e d req = (out, d', lg)"
  shows "(fault_organization_findMany e = None
          \<and> (fault_user_update e = None \<or> truthy (user_primaryOrganizationId user)
               \<or> filter org_active (organizations d) = [])
          \<longrightarrow> (\<exists>access' lg'. self_heal e d user [] =
                  (d', map org_id (filter org_active (organizations d)), access', lg'))
            \<and> set (map org_id (filter org_active (organizations d)))
                 = {org_id org | org. org \<in> set (organizations d) \<and> org_active org}
            \<and> (\<forall>ctx. out = Attached ctx \<longrightarrow>
                   organizationIds ctx = map org_id (filter org_active (organizations d)))
            \<and> (\<forall>org0 rest. \<not> truthy (user_primaryOrganizationId user)
                   \<and> filter org_active (organizations d) = org0 # rest \<longrightarrow>
                   find (\<lambda>u. user_id u = user_id user) (users d')
                     = Some (user\<lparr> user_primaryOrganizationId := Some (org_id org0) \<rparr>)))
       \<and> ((\<exists>err. fault_organization_findMany e = Some err)
            \<or> (fault_organization_findMany e = None \<and> (\<exists>err. fault_user_update e = Some err)
                 \<and> \<not> truthy (user_primaryOrganizationId user)
                 \<and> filter org_active (organizations d) \<noteq> [])
          \<longrightarrow> (\<exists>lg'. self_heal e d user [] = (d', [], [], lg'))
            \<and> (\<forall>ctx. out = Attached ctx \<longrightarrow> organizationIds ctx = [])
            \<and> find (\<lambda>u. user_id u = user_id user) (users d') = Some user)"
proof (rule conjI; rule impI)
  let ?orgs = "filter org_active (organizations d)"
  assume a: "fault_organization_findMany e = None
          \<and> (fault_user_update e = None \<or> truthy (user_primaryOrganizationId user) \<or> ?orgs = [])"
  then have enum: "fault_organization_findMany e = None" by simp
  from authenticates_found[OF assms(1)]
  have found: "find (\<lambda>u. user_id u = user_id user) (users d) = Some user" by simp
  have "\<exists>d1 lg1. self_heal e d user [] =
        (d1, map org_id ?orgs, map (temp_access (user_id user)) ?orgs, lg1)
      \<and> find (\<lambda>u. user_id u = user_id user) (users d1) =
             Some (if truthy (user_primaryOrganizationId user) then user
                   else (case ?orgs of
                           [] \<Rightarrow> user
                         | org0 # _ \<Rightarrow> user\<lparr> user_primaryOrganizationId := Some (org_id org0) \<rparr>))"
  proof (cases "fault_user_update e = None")
    case True
    from self_heal_grant[OF assms(2) enum True found] show ?thesis by blast
  next
    case False
    with a have skip: "truthy (user_primaryOrganizationId user) \<or> ?orgs = []" by simp
    from self_heal_grant_skip[OF assms(2) enum skip found] skip show ?thesis by auto
  qed
  then obtain d1 lg1 where sh: "self_heal e d user [] =
        (d1, map org_id ?orgs, map (temp_access (user_id user)) ?orgs, lg1)"
    and f1: "find (\<lambda>u. user_id u = user_id user) (users d1) =
             Some (if truthy (user_primaryOrganizationId user) then user
                   else (case ?orgs of
                           [] \<Rightarrow> user
                         | org0 # _ \<Rightarrow> user\<lparr> user_primaryOrganizationId := Some (org_id org0) \<rparr>))"
    by blast
  have res: "resolve_context e d req user [] = (out, d', lg)"
    using assms(1,3) authenticates_resolve by simp
  then have d': "d' = d1"
    unfolding resolve_context_cases[OF sh] by (auto split: if_splits)
  have ctx: "\<forall>ctx. out = Attached ctx \<longrightarrow> organizationIds ctx = map org_id ?orgs"
    using res unfolding resolve_context_cases[OF sh] by (auto split: if_splits)
  have s: "set (map org_id ?orgs) = {org_id org | org. org \<in> set (organizations d) \<and> org_active org}"
    by auto
  have p: "\<forall>org0 rest. \<not> truthy (user_primaryOrganizationId user) \<and> ?orgs = org0 # rest \<longrightarrow>
              find (\<lambda>u. user_id u = user_id user) (users d')
                = Some (user\<lparr> user_primaryOrganizationId := Some (org_id org0) \<rparr>)"
    using f1 d' by auto
  from sh d' ctx s p
  show "(\<exists>access' lg'. self_heal e d user [] = (d', map org_id ?orgs, access', lg'))
            \<and> set (map org_id ?orgs)
                 = {org_id org | org. org \<in> set (organizations d) \<and> org_active org}
            \<and> (\<forall>ctx. out = Attached ctx \<longrightarrow> organizationIds ctx = map org_id ?orgs)
            \<and> (\<forall>org0 rest. \<not> truthy (user_primaryOrganizationId user) \<and> ?orgs = org0 # rest \<longrightarrow>
                   find (\<lambda>u. user_id u = user_id user) (users d')
                     = Some (user\<lparr> user_primaryOrganizationId := Some (org_id org0) \<rparr>))"
    by blast
next
  let ?orgs = "filter org_active (organizations d)"
  assume a: "(\<exists>err. fault_organization_findMany e = Some err)
            \<or> (fault_organization_findMany e = None \<and> (\<exists>err. fault_user_update e = Some err)
                 \<and> \<not> truthy (user_primaryOrganizationId user) \<and> ?orgs \<noteq> [])"
  from authenticates_found[OF assms(1)]
  have found: "find (\<lambda>u. user_id u = user_id user) (users d) = Some user" by simp
  from a have "\<exists>d1 lg1. self_heal e d user [] = (d1, [], [], lg1) \<and> users d1 = users d"
  proof (elim disjE conjE exE)
    fix err assume "fault_organization_findMany e = Some err"
    from self_heal_enumeration_fails[OF assms(2) this, of d] show ?thesis by simp
  next
    fix err
    assume enum: "fault_organization_findMany e = None" and upd: "fault_user_update e = Some err"
      and np: "\<not> truthy (user_primaryOrganizationId user)" and ne: "?orgs \<noteq> []"
    obtain d1 lg1 where c: "create_access_all e (user_id user) ?orgs (d, []) = (d1, lg1)"
      by (cases "create_access_all e (user_id user) ?orgs (d, [])") auto
    from create_access_all_frame[of e "user_id user" ?orgs d "[]"] c
    have fr: "users d1 = users d" by simp
    have fm: "organization_findMany e d = Inr ?orgs" using enum by (simp add: organization_findMany_def)
    obtain org0 rest where o: "?orgs = org0 # rest" using ne by (cases ?orgs) auto
    have "user_update_primary e d1 (user_id user) (org_id org0) = Inl err"
      using upd by (simp add: user_update_primary_def)
    then have "self_heal e d user [] = (d1, [], [], lg1 @ [Error_GrantAccessFailed (err_message err)])"
      unfolding self_heal_unfold[OF assms(2) fm c] using np by (simp add: o)
    with fr show ?thesis by blast
  qed
  then obtain d1 lg1 where sh: "self_heal e d user [] = (d1, [], [], lg1)" and fr: "users d1 = users d"
    by blast
  have res: "resolve_context e d req user [] = (out, d', lg)"
    using assms(1,3) authenticates_resolve by simp
  then have d': "d' = d1"
    unfolding resolve_context_cases[OF sh] by (auto split: if_splits)
  have ctx: "\<forall>ctx. out = Attached ctx \<longrightarrow> organizationIds ctx = []"
    using res unfolding resolve_context_cases[OF sh] by (auto split: if_splits)
  from sh d' ctx fr found
  show "(\<exists>lg'. self_heal e d user [] = (d', [], [], lg'))
            \<and> (\<forall>ctx. out = Attached ctx \<longrightarrow> organizationIds ctx = [])
            \<and> find (\<lambda>u. user_id u = user_id user) (users d') = Some user"
    by auto
qed

lemma authenticates_A_update_down:
  "authenticates (scenario_env\<lparr> fault_user_update := Some store_down \<rparr>) scenario_db
     (request_of ''token-A'' org) user_A []"
  by (simp add: scenario_defs lookup_defs)

lemma resolve_A_update_down:
  "authMiddleware (scenario_env\<lparr> fault_user_update := Some store_down \<rparr>) scenario_db
     (request_of ''token-A'' None)
   = (Attached context_A_empty, granted_db, [Error_GrantAccessFailed (err_message store_down)])"
  unfolding authenticates_resolve[OF authenticates_A_update_down]
  by (simp add: resolve_context_def grant_defs select_current_def js_or_def no_access_def
        scenario_defs healed_db_def granted_db_def context_A_empty_def store_down_def)

text \<open>
  The update of the primary organization fails for \<open>A\<close>: the three memberships are
  stored, yet the context attached to the request has no organization at all.
\<close>

theorem self_heal_update_failure_empty:
  "authMiddleware (scenario_env\<lparr> fault_user_update := Some store_down \<rparr>) scenario_db
     (request_of ''token-A'' None)
   = (Attached context_A_empty, granted_db, [Error_GrantAccessFailed (err_message store_down)])
   \<and> organizationIds context_A_empty = []
   \<and> map org_id (filter org_active (organizations scenario_db)) = [''O1'', ''O2'', ''O3'']
   \<and> map access_organizationId (active_rows granted_db ''A'') = [''O1'', ''O2'', ''O3'']
   \<and> find (\<lambda>u. user_id u = ''A'') (users granted_db) = Some user_A
   \<and> user_primaryOrganizationId user_A = None"
  using resolve_A_update_down
  by (simp add: context_A_empty_def scenario_defs granted_db_def healed_db_def active_rows_def)

theorem super_admin_self_heal_witness:
  "authenticates scenario_env scenario_db (request_of ''token-A'' None) user_A []
   \<and> user_role user_A = ''super_admin''
   \<and> fault_organization_findMany scenario_env = None
   \<and> fault_user_update scenario_env = None
   \<and> authMiddleware scenario_env scenario_db (request_of ''token-A'' None)
        = (Attached (context_A (Some ''O1'')), healed_db, [])
   \<and> \<not> truthy (user_primaryOrganizationId user_A)
   \<and> organizationIds (context_A (Some ''O1'')) = map org_id (filter org_active (organizations scenario_db))
   \<and> organizationIds (context_A (Some ''O1'')) = [''O1'', ''O2'', ''O3'']
   \<and> find (\<lambda>u. user_id u = user_id user_A) (users healed_db)
        = Some (user_A\<lparr> user_primaryOrganizationId := Some ''O1'' \<rparr>)
   \<and> authenticates (scenario_env\<lparr> fault_user_update := Some store_down \<rparr>) scenario_db
        (request_of ''token-A'' None) user_A []
   \<and> fault_organization_findMany (scenario_env\<lparr> fault_user_update := Some store_down \<rparr>) = None
   \<and> fault_user_update (scenario_env\<lparr> fault_user_update := Some store_down \<rparr>) = Some store_down
   \<and> filter org_active (organizations scenario_db) \<noteq> []
   \<and> authMiddleware (scenario_env\<lparr> fault_user_update := Some store_down \<rparr>) scenario_db
        (request_of ''token-A'' None)
      = (Attached context_A_empty, granted_db, [Error_GrantAccessFailed (err_message store_down)])
   \<and> organizationIds context_A_empty = []
   \<and> find (\<lambda>u. user_id u = user_id user_A) (users granted_db) = Some user_A"
proof -
  let ?e = "scenario_env\<lparr> fault_user_update := Some store_down \<rparr>"
  have r: "user_role user_A = ''super_admin''" by (simp add: user_A_def)
  have f1: "fault_organization_findMany scenario_env = None"
    and f2: "fault_user_update scenario_env = None" by (simp_all add: scenario_env_def)
  have g1: "fault_organization_findMany ?e = None" and g2: "fault_user_update ?e = Some store_down"
    by (simp_all add: scenario_env_def)
  have np: "\<not> truthy (user_primaryOrganizationId user_A)" by (simp add: truthy_def user_A_def)
  have ne: "filter org_active (organizations scenario_db) \<noteq> []" by (simp add: active_orgs_scenario)
  note ok = super_admin_self_heal[OF authenticates_A r resolve_A, THEN conjunct1, rule_format]
  note ko = super_admin_self_heal[OF authenticates_A_update_down r resolve_A_update_down,
      THEN conjunct2, rule_format]
  have pre: "fault_organization_findMany scenario_env = None
          \<and> (fault_user_update scenario_env = None \<or> truthy (user_primaryOrganizationId user_A)
               \<or> filter org_active (organizations scenario_db) = [])" using f1 f2 by simp
  from ok[OF pre] have "organizationIds (context_A (Some ''O1''))
      = map org_id (filter org_active (organizations scenario_db))" by blast
  moreover have "organizationIds (context_A (Some ''O1'')) = [''O1'', ''O2'', ''O3'']"
    by (simp add: context_A_def)
  moreover from ok[OF pre] np active_orgs_scenario
  have "find (\<lambda>u. user_id u = user_id user_A) (users healed_db)
        = Some (user_A\<lparr> user_primaryOrganizationId := Some (org_id org_O1) \<rparr>)" by blast
  then have "find (\<lambda>u. user_id u = user_id user_A) (users healed_db)
        = Some (user_A\<lparr> user_primaryOrganizationId := Some ''O1'' \<rparr>)" by (simp add: org_O1_def)
  moreover have pre2: "(\<exists>err. fault_organization_findMany ?e = Some err)
            \<or> (fault_organization_findMany ?e = None \<and> (\<exists>err. fault_user_update ?e = Some err)
                 \<and> \<not> truthy (user_primaryOrganizationId user_A)
                 \<and> filter org_active (organizations scenario_db) \<noteq> [])"
    using g1 g2 np ne by blast
  from ko[OF pre2] have "organizationIds context_A_empty = []"
    and "find (\<lambda>u. user_id u = user_id user_A) (users granted_db) = Some user_A" by blast+
  ultimately show ?thesis
    using authenticates_A r f1 f2 resolve_A np authenticates_A_update_down g1 g2 ne resolve_A_update_down
    by blast
qed

section \<open>The order of the candidates\<close>

text \<open>
  Claim C5. For an authenticated caller, with the ids computed for the request: when the
  header is present (truthy) it is the current organization, whatever the primary
  organization and the ids are; when the header is absent and the identity's stored
  \<open>primaryOrganizationId\<close> is present, that one is; when both are absent, the first
  element of \<open>organizationIds\<close> is (missing when the list is empty). The chosen
  candidate is the \<open>currentOrganizationId\<close> of the attached context, or the
  organization named in the log line of the 403 reply. Absent means falsy: missing or
  the empty string.
\<close>
theorem candidate_order:
  assumes "authenticates e d req user access"
      and "self_heal e d user access = (d', ids, access', lg)"
  shows "(truthy (x_organization_id req) \<longrightarrow>
            (\<exists>ctx. authMiddleware e d req = (Attached ctx, d', lg) \<and> organizationIds ctx = ids
                   \<and> currentOrganizationId ctx = x_organization_id req)
            \<or> (\<exists>c. x_organization_id req = Some c \<and> c \<notin> set ids
                   \<and> authMiddleware e d req =
                       (Reply 403 ''forbidden'' ''No access to specified organization'', d',
                        lg @ [Warn_NoAccessToOrganization c (user_id user)])))
       \<and> (\<not> truthy (x_organization_id req) \<and> truthy (user_primaryOrganizationId user) \<longrightarrow>
            (\<exists>ctx. authMiddleware e d req = (Attached ctx, d', lg) \<and> organizationIds ctx = ids
                   \<and> currentOrganizationId ctx = user_primaryOrganizationId user)
            \<or> (\<exists>c. user_primaryOrganizationId user = Some c \<and> c \<notin> set ids
                   \<and> authMiddleware e d req =
                       (Reply 403 ''forbidden'' ''No access to specified organization'', d',
                        lg @ [Warn_NoAccessToOrganization c (user_id user)])))
       \<and> (\<not> truthy (x_organization_id req) \<and> \<not> truthy (user_primaryOrganizationId user) \<longrightarrow>
            (\<exists>ctx. authMiddleware e d req = (Attached ctx, d', lg) \<and> organizationIds ctx = ids
                   \<and> currentOrganizationId ctx = first ids))"
proof -
  let ?h = "x_organization_id req" and ?p = "user_primaryOrganizationId user"
  note res = authenticates_resolve[OF assms(1)] resolve_context_cases[OF assms(2)]
  have chosen: "\<And>v. select_current req user ids = v \<Longrightarrow>
      (\<exists>ctx. authMiddleware e d req = (Attached ctx, d', lg) \<and> organizationIds ctx = ids
                   \<and> currentOrganizationId ctx = v)
      \<or> (\<exists>c. v = Some c \<and> c \<notin> set ids
                   \<and> authMiddleware e d req =
                       (Reply 403 ''forbidden'' ''No access to specified organization'', d',
                        lg @ [Warn_NoAccessToOrganization c (user_id user)]))"
  proof -
    fix v assume v: "select_current req user ids = v"
    show "(\<exists>ctx. authMiddleware e d req = (Attached ctx, d', lg) \<and> organizationIds ctx = ids
                   \<and> currentOrganizationId ctx = v)
      \<or> (\<exists>c. v = Some c \<and> c \<notin> set ids
                   \<and> authMiddleware e d req =
                       (Reply 403 ''forbidden'' ''No access to specified organization'', d',
                        lg @ [Warn_NoAccessToOrganization c (user_id user)]))"
    proof (cases "no_access v ids")
      case True
      then obtain c where "v = Some c" "c \<notin> set ids"
        by (auto simp: no_access_def split: option.splits)
      with True v show ?thesis unfolding res by simp
    next
      case False
      with v show ?thesis unfolding res by simp
    qed
  qed
  have 1: "truthy ?h \<Longrightarrow> select_current req user ids = ?h"
    by (simp add: select_current_def js_or_def)
  have 2: "\<not> truthy ?h \<Longrightarrow> truthy ?p \<Longrightarrow> select_current req user ids = ?p"
    by (simp add: select_current_def js_or_def)
  have 3: "\<not> truthy ?h \<Longrightarrow> \<not> truthy ?p \<Longrightarrow> select_current req user ids = first ids"
    by (simp add: select_current_def js_or_def)
  have na3: "\<not> no_access (first ids) ids"
    by (cases ids) (auto simp: no_access_def)
  have c3: "\<not> truthy ?h \<and> \<not> truthy ?p \<longrightarrow>
            (\<exists>ctx. authMiddleware e d req = (Attached ctx, d', lg) \<and> organizationIds ctx = ids
                   \<and> currentOrganizationId ctx = first ids)"
    using 3 na3 unfolding res by auto
  from chosen[OF 1] chosen[OF 2] c3 show ?thesis by blast
qed

lemma authenticates_A_healed:
  "authenticates scenario_env healed_db (request_of ''token-A'' org)
     (user_A\<lparr> user_primaryOrganizationId := Some ''O1'' \<rparr>) (active_access healed_db user_A)"
  by (simp add: scenario_defs lookup_defs healed_db_def)

lemma self_heal_A_healed:
  "self_heal scenario_env healed_db (user_A\<lparr> user_primaryOrganizationId := Some ''O1'' \<rparr>)
     (active_access healed_db user_A)
   = (healed_db, [''O1'', ''O2'', ''O3''], active_access healed_db user_A, [])"
  by (simp add: self_heal_def active_access_def join_organization_def healed_db_def scenario_defs)

lemma authenticates_A_primary:
  "authenticates scenario_env primary_db (request_of ''token-A'' org) user_A_O2
     (active_access healed_db user_A)"
  by (simp add: scenario_defs lookup_defs healed_db_def primary_db_def user_A_O2_def)

lemma self_heal_A_primary:
  "self_heal scenario_env primary_db user_A_O2 (active_access healed_db user_A)
   = (primary_db, [''O1'', ''O2'', ''O3''], active_access healed_db user_A, [])"
  by (simp add: self_heal_def active_access_def join_organization_def healed_db_def scenario_defs)

lemma resolve_A_primary:
  "authMiddleware scenario_env primary_db (request_of ''token-A'' None)
     = (Attached context_A_primary, primary_db, [])"
  unfolding authenticates_resolve[OF authenticates_A_primary] resolve_context_cases[OF self_heal_A_primary]
  by (simp add: select_current_def js_or_def truthy_def no_access_def request_of_def user_A_O2_def
        user_A_def context_A_primary_def)

lemma resolve_B_O4:
  "authMiddleware scenario_env scenario_db (request_of ''token-B'' (Some ''O4''))
     = (Reply 403 ''forbidden'' ''No access to specified organization'', scenario_db,
        [Warn_NoAccessToOrganization ''O4'' ''B''])"
  unfolding authenticates_resolve[OF authenticates_B] resolve_context_cases[OF self_heal_B]
  by (simp add: select_current_def js_or_def truthy_def no_access_def request_of_def user_B_def)

theorem candidate_order_witness:
  "authenticates scenario_env healed_db (request_of ''token-A'' (Some ''O2''))
     (user_A\<lparr> user_primaryOrganizationId := Some ''O1'' \<rparr>) (active_access healed_db user_A)
   \<and> self_heal scenario_env healed_db (user_A\<lparr> user_primaryOrganizationId := Some ''O1'' \<rparr>)
        (active_access healed_db user_A)
      = (healed_db, [''O1'', ''O2'', ''O3''], active_access healed_db user_A, [])
   \<and> x_organization_id (request_of ''token-A'' (Some ''O2'')) = Some ''O2''
   \<and> truthy (x_organization_id (request_of ''token-A'' (Some ''O2'')))
   \<and> user_primaryOrganizationId (user_A\<lparr> user_primaryOrganizationId := Some ''O1'' \<rparr>) = Some ''O1''
   \<and> first [''O1'', ''O2'', ''O3''] = Some ''O1''
   \<and> authMiddleware scenario_env healed_db (request_of ''token-A'' (Some ''O2''))
      = (Attached (context_A_second (Some ''O2'')), healed_db, [])
   \<and> currentOrganizationId (context_A_second (Some ''O2'')) = Some ''O2''
   \<and> authenticates scenario_env primary_db (request_of ''token-A'' None) user_A_O2
        (active_access healed_db user_A)
   \<and> self_heal scenario_env primary_db user_A_O2 (active_access healed_db user_A)
      = (primary_db, [''O1'', ''O2'', ''O3''], active_access healed_db user_A, [])
   \<and> \<not> truthy (x_organization_id (request_of ''token-A'' None))
   \<and> truthy (user_primaryOrganizationId user_A_O2)
   \<and> user_primaryOrganizationId user_A_O2 = Some ''O2''
   \<and> authMiddleware scenario_env primary_db (request_of ''token-A'' None)
      = (Attached context_A_primary, primary_db, [])
   \<and> currentOrganizationId context_A_primary = Some ''O2''
   \<and> authenticates scenario_env scenario_db (request_of ''token-B'' None) user_B access_B
   \<and> self_heal scenario_env scenario_db user_B access_B = (scenario_db, [''O3''], access_B, [])
   \<and> \<not> truthy (x_organization_id (request_of ''token-B'' None))
   \<and> \<not> truthy (user_primaryOrganizationId user_B)
   \<and> authMiddleware scenario_env scenario_db (request_of ''token-B'' None)
      = (Attached context_B, scenario_db, [])
   \<and> currentOrganizationId context_B = first [''O3'']
   \<and> truthy (x_organization_id (request_of ''token-B'' (Some ''O4'')))
   \<and> authMiddleware scenario_env scenario_db (request_of ''token-B'' (Some ''O4''))
      = (Reply 403 ''forbidden'' ''No access to specified organization'', scenario_db,
         [] @ [Warn_NoAccessToOrganization ''O4'' (user_id user_B)])"
proof -
  have h1: "x_organization_id (request_of ''token-A'' (Some ''O2'')) = Some ''O2''"
    and t1: "truthy (x_organization_id (request_of ''token-A'' (Some ''O2'')))"
    and p1: "user_primaryOrganizationId (user_A\<lparr> user_primaryOrganizationId := Some ''O1'' \<rparr>) = Some ''O1''"
    and f1: "first [''O1'', ''O2'', ''O3''] = Some ''O1''"
    by (simp_all add: request_of_def truthy_def)
  have t2: "\<not> truthy (x_organization_id (request_of ''token-A'' None))"
    and p2: "truthy (user_primaryOrganizationId user_A_O2)"
    and q2: "user_primaryOrganizationId user_A_O2 = Some ''O2''"
    by (simp_all add: request_of_def truthy_def user_A_O2_def)
  have t3: "\<not> truthy (x_organization_id (request_of ''token-B'' None))"
    and p3: "\<not> truthy (user_primaryOrganizationId user_B)"
    by (simp_all add: request_of_def truthy_def user_B_def)
  have t4: "truthy (x_organization_id (request_of ''token-B'' (Some ''O4'')))"
    and h4: "x_organization_id (request_of ''token-B'' (Some ''O4'')) = Some ''O4''"
    by (simp_all add: request_of_def truthy_def)
  note a = candidate_order[OF authenticates_A_healed[of "Some ''O2''"] self_heal_A_healed,
      THEN conjunct1, rule_format, OF t1]
  note b = candidate_order[OF authenticates_A_primary[of None] self_heal_A_primary,
      THEN conjunct2, THEN conjunct1, rule_format, OF conjI[OF t2 p2]]
  note c = candidate_order[OF authenticates_B[of None] self_heal_B,
      THEN conjunct2, THEN conjunct2, rule_format, OF conjI[OF t3 p3]]
  note k = candidate_order[OF authenticates_B[of "Some ''O4''"] self_heal_B,
      THEN conjunct1, rule_format, OF t4]
  from a second_request_A h1
  have ca: "currentOrganizationId (context_A_second (Some ''O2'')) = Some ''O2''" by auto
  from b resolve_A_primary q2
  have cb: "currentOrganizationId context_A_primary = Some ''O2''" by auto
  from c resolve_B
  have cc: "currentOrganizationId context_B = first [''O3'']" by auto
  from k resolve_B_O4 h4
  have ck: "authMiddleware scenario_env scenario_db (request_of ''token-B'' (Some ''O4''))
      = (Reply 403 ''forbidden'' ''No access to specified organization'', scenario_db,
         [] @ [Warn_NoAccessToOrganization ''O4'' (user_id user_B)])" by auto
  show ?thesis
    using authenticates_A_healed[of "Some ''O2''"] self_heal_A_healed h1 t1 p1 f1 second_request_A ca
      authenticates_A_primary[of None] self_heal_A_primary t2 p2 q2 resolve_A_primary cb
      authenticates_B[of None] self_heal_B t3 p3 resolve_B cc t4 ck
    by blast
qed

section \<open>A caller without memberships on the other routes\<close>


end
